theory Spec2Isabelle
  imports Main "HOL-Library.Sublist" "HOL-Library.Word"
begin

section \<open>Data model: the four Mongoose schemas\<close>

text \<open>
  An ObjectId is modelled as a natural number; the string comparisons of the routes
  (\<^verbatim>\<open>id.toString() === currentUserId\<close>) are equality of identifiers. Dates are
  natural numbers (milliseconds). A collection is the list of its documents; the store
  keeps \<^verbatim>\<open>_id\<close> unique within a collection.
\<close>

type_synonym oid = nat

text \<open>
  A post's content goes through the regular expressions of the schema's setter, which
  work on the UTF-16 code units of a JavaScript string; it is modelled as the list of
  its code units. \<open>js\<close> turns an ASCII literal into such a string. The other texts
  (names, titles, links) are only stored and copied.
\<close>

type_synonym code_unit = "16 word"
type_synonym js_string = "code_unit list"

definition js :: "string \<Rightarrow> js_string" where
  "js s = map of_char s"

record user =
  u_id :: oid
  u_email :: string
  u_password :: string
  u_firstName :: string
  u_lastName :: string
  u_dateOfBirth :: nat
  u_profilePicture :: string
  u_about :: string
  u_subscribers :: "oid list"

record post =
  p_id :: oid
  p_title :: string
  p_content :: js_string
  p_author :: oid
  p_firstName :: string
  p_lastName :: string
  p_profilePicture :: string
  p_likes :: "oid list"
  p_image :: string

record comment =
  c_id :: oid
  c_content :: string
  c_post :: oid
  c_author :: oid
  c_firstName :: string
  c_lastName :: string
  c_profilePicture :: string
  c_createdAt :: nat

datatype ntype = TLike | TComment | TSubscribe | TPostCreated

text \<open>
  \<^verbatim>\<open>notificationSchema\<close> declares \<^verbatim>\<open>sender\<close> as a plain ObjectId reference to a
  User, like \<^verbatim>\<open>recipient\<close>: a stored notification holds the sender's identifier and
  no copy of the sender's name or picture.
\<close>

record notification =
  n_recipient :: oid
  n_sender :: oid
  n_post :: "oid option"
  n_type :: ntype
  n_read :: bool
  n_createdAt :: nat

record db =
  users :: "user list"
  posts :: "post list"
  comments :: "comment list"
  notifications :: "notification list"

section \<open>Store calls and their failures\<close>

text \<open>
  Every awaited call on a model or on the image host may reject. The calls of the routes
  are named, and a fault assignment says which of them reject in the request at hand.
  The loop of the account deletion issues one \<^verbatim>\<open>Comment.deleteMany\<close> per post, named
  by the post's identifier.
\<close>

datatype call =
    User_findById
  | User_save
  | User_findByIdAndUpdate
  | User_updateMany
  | User_findByIdAndDelete
  | Post_find
  | Post_findById
  | Post_save
  | Post_updateMany
  | Post_deleteMany
  | Comment_updateMany
  | Comment_deleteMany_post oid
  | Comment_deleteMany_author
  | Notification_save
  | Notification_insertMany
  | Notification_updateMany
  | Notification_deleteMany
  | Notification_find
  | Notification_countDocuments
  | Cloudinary_upload

type_synonym faults = "call \<Rightarrow> bool"

definition no_faults :: faults where
  "no_faults = (\<lambda>c. False)"

datatype 'a response = Success nat 'a | Failure nat string

fun is_success :: "'a response \<Rightarrow> bool" where
  "is_success (Success code x) = True"
| "is_success (Failure code m) = False"

subsection \<open>Queries and bulk writes on a collection\<close>

definition findById :: "('d \<Rightarrow> oid) \<Rightarrow> 'd list \<Rightarrow> oid \<Rightarrow> 'd option" where
  "findById ident ds i = find (\<lambda>d. ident d = i) ds"

definition updateMany :: "('d \<Rightarrow> bool) \<Rightarrow> ('d \<Rightarrow> 'd) \<Rightarrow> 'd list \<Rightarrow> 'd list" where
  "updateMany sel upd ds = map (\<lambda>d. if sel d then upd d else d) ds"

definition deleteMany :: "('d \<Rightarrow> bool) \<Rightarrow> 'd list \<Rightarrow> 'd list" where
  "deleteMany sel ds = filter (\<lambda>d. \<not> sel d) ds"

text \<open>Single-document writes act on the first document that the filter selects.\<close>

fun updateOne :: "('d \<Rightarrow> bool) \<Rightarrow> ('d \<Rightarrow> 'd) \<Rightarrow> 'd list \<Rightarrow> 'd list" where
  "updateOne sel upd [] = []"
| "updateOne sel upd (d # ds) = (if sel d then upd d # ds else d # updateOne sel upd ds)"

fun deleteOne :: "('d \<Rightarrow> bool) \<Rightarrow> 'd list \<Rightarrow> 'd list" where
  "deleteOne sel [] = []"
| "deleteOne sel (d # ds) = (if sel d then ds else d # deleteOne sel ds)"

text \<open>Saving a loaded document writes it back under its \<^verbatim>\<open>_id\<close>.\<close>

definition save_doc :: "('d \<Rightarrow> oid) \<Rightarrow> 'd \<Rightarrow> 'd list \<Rightarrow> 'd list" where
  "save_doc ident doc ds = updateOne (\<lambda>d. ident d = ident doc) (\<lambda>d. doc) ds"

text \<open>
  A filter path with a dot reads a field of the value stored under the first name. The
  value stored under \<^verbatim>\<open>sender\<close> is an ObjectId, which has no fields: whether the
  query layer passes the path \<^verbatim>\<open>sender._id\<close> on to the store or drops it as unknown
  to the schema, that condition selects no stored notification.
\<close>

datatype bson = BObjectId oid | BDocument "(string \<times> bson) list"

fun bson_field :: "string \<Rightarrow> bson \<Rightarrow> bson option" where
  "bson_field k (BObjectId i) = None"
| "bson_field k (BDocument kvs) = map_of kvs k"

definition stored_sender :: "notification \<Rightarrow> bson" where
  "stored_sender n = BObjectId (n_sender n)"

definition sender_id_is :: "oid \<Rightarrow> notification \<Rightarrow> bool" where
  \<comment> \<open>the filter \<^verbatim>\<open>{ 'sender._id': userId }\<close>\<close>
  "sender_id_is userId n \<longleftrightarrow> bson_field ''_id'' (stored_sender n) = Some (BObjectId userId)"

text \<open>
  The \<^verbatim>\<open>required: true\<close> string paths: validation on save rejects a missing value and
  the empty string.
\<close>

definition user_valid :: "user \<Rightarrow> bool" where
  "user_valid u \<longleftrightarrow>
     u_email u \<noteq> [] \<and> u_password u \<noteq> [] \<and> u_firstName u \<noteq> [] \<and> u_lastName u \<noteq> []"

definition post_valid :: "post \<Rightarrow> bool" where
  "post_valid p \<longleftrightarrow>
     p_title p \<noteq> [] \<and> p_content p \<noteq> [] \<and> p_firstName p \<noteq> [] \<and> p_lastName p \<noteq> []"

section \<open>The content setter of the post schema\<close>

text \<open>
  \<^verbatim>\<open>content.replace(/\*\*(.*?)\*\*/g, '<strong>$1</strong>')
         .replace(/\*(.*?)\*/g, '<em>$1</em>')
         .replace(/__(.*?)__/g, '<u>$1</u>')\<close>

  Each pattern is a delimiter, a lazy group of characters other than line terminators,
  and the delimiter again. \<open>lazy_group d s\<close> runs the group and the closing delimiter
  on the text after an opening delimiter: the group grows one character at a time until
  the delimiter follows, and fails at a line terminator or at the end of the text.
\<close>

definition line_terminator :: "code_unit \<Rightarrow> bool" where
  \<comment> \<open>what the dot of the patterns does not match: LF, CR, U+2028, U+2029\<close>
  "line_terminator c \<longleftrightarrow> c = 0x0A \<or> c = 0x0D \<or> c = 0x2028 \<or> c = 0x2029"

fun lazy_group :: "js_string \<Rightarrow> js_string \<Rightarrow> (js_string \<times> js_string) option" where
  "lazy_group d [] = (if d = [] then Some ([], []) else None)"
| "lazy_group d (c # cs) =
     (if prefix d (c # cs) then Some ([], drop (length d) (c # cs))
      else if line_terminator c then None
      else (case lazy_group d cs of
              None \<Rightarrow> None
            | Some (body, rest) \<Rightarrow> Some (c # body, rest)))"

text \<open>
  The global replace: at each position try the pattern; on a match emit the replacement
  and go on after the match, otherwise keep the character and move one position on.
\<close>

function replace_g ::
  "js_string \<Rightarrow> js_string \<Rightarrow> js_string \<Rightarrow> js_string \<Rightarrow> js_string" where
  "replace_g d op cl [] = []"
| "replace_g d op cl (c # cs) =
     (if d \<noteq> [] \<and> prefix d (c # cs) then
        (case lazy_group d (drop (length d) (c # cs)) of
           Some (body, rest) \<Rightarrow> op @ body @ cl @ replace_g d op cl rest
         | None \<Rightarrow> c # replace_g d op cl cs)
      else c # replace_g d op cl cs)"
  by pat_completeness auto
termination
proof (relation "measure (\<lambda>(d, op, cl, s). length s)")
  show "wf (measure (\<lambda>(d, op, cl, s). length s))" by simp
next
  fix d op cl :: js_string and c cs x2 body rest
  assume d: "d \<noteq> [] \<and> prefix d (c # cs)"
    and lg: "lazy_group d (drop (length d) (c # cs)) = Some x2"
    and x2: "(body, rest) = x2"
  have shorter: "length r \<le> length t" if "lazy_group d t = Some (b, r)" for t b r
    using that by (induction t arbitrary: b) (auto split: if_splits option.splits)
  from lg x2 have "length rest \<le> length (drop (length d) (c # cs))"
    using shorter [of "drop (length d) (c # cs)" body rest] by simp
  moreover from d obtain x xs where "d = x # xs" by (cases d) auto
  ultimately have "length rest < length (c # cs)" by simp
  then show "((d, op, cl, rest), (d, op, cl, c # cs)) \<in> measure (\<lambda>(d, op, cl, s). length s)"
    by simp
qed simp_all

definition set_content :: "js_string \<Rightarrow> js_string" where
  "set_content content =
     replace_g (js ''__'') (js ''<u>'') (js ''</u>'')
       (replace_g (js ''*'') (js ''<em>'') (js ''</em>'')
          (replace_g (js ''**'') (js ''<strong>'') (js ''</strong>'') content))"

subsection \<open>The formatting in words\<close>

text \<open>
  One left-to-right pass that replaces wrapped spans, without overlap.
  \<open>wrapped_span excluded d s body rest\<close>: the text \<open>s\<close> starts with a wrapped span,
  that is the delimiter, a body, and the first delimiter that follows the opening one;
  the body holds no character of \<open>excluded\<close>. \<open>pass\<close> replaces, from the left, every
  wrapped span by its body between the opening and the closing tag and keeps every
  other character; \<open>three_passes\<close> is the bold pass, then the italic pass, then the
  underline pass.
\<close>

definition wrapped_span ::
  "(code_unit \<Rightarrow> bool) \<Rightarrow> js_string \<Rightarrow> js_string \<Rightarrow> js_string \<Rightarrow> js_string \<Rightarrow> bool" where
  "wrapped_span excluded d s body rest \<longleftrightarrow>
     s = d @ body @ d @ rest
     \<and> (\<forall>c\<in>set body. \<not> excluded c)
     \<and> (\<forall>k<length body. \<not> prefix d (drop k (body @ d @ rest)))"

inductive pass ::
  "(code_unit \<Rightarrow> bool) \<Rightarrow> js_string \<Rightarrow> js_string \<Rightarrow> js_string \<Rightarrow> js_string \<Rightarrow> js_string \<Rightarrow> bool"
  for excluded d op cl where
  finished: "pass excluded d op cl [] []"
| wrap: "wrapped_span excluded d s body rest \<Longrightarrow> pass excluded d op cl rest out \<Longrightarrow>
         pass excluded d op cl s (op @ body @ cl @ out)"
| keep: "\<not> (\<exists>body rest. wrapped_span excluded d (c # cs) body rest) \<Longrightarrow>
         pass excluded d op cl cs out \<Longrightarrow>
         pass excluded d op cl (c # cs) (c # out)"

definition three_passes :: "(code_unit \<Rightarrow> bool) \<Rightarrow> js_string \<Rightarrow> js_string \<Rightarrow> bool" where
  "three_passes excluded raw out \<longleftrightarrow>
     (\<exists>b i. pass excluded (js ''**'') (js ''<strong>'') (js ''</strong>'') raw b
          \<and> pass excluded (js ''*'') (js ''<em>'') (js ''</em>'') b i
          \<and> pass excluded (js ''__'') (js ''<u>'') (js ''</u>'') i out)"

text \<open>
  The specification's wording: every wrapped span is replaced, whatever its body holds.
\<close>

definition spec_formatted :: "js_string \<Rightarrow> js_string \<Rightarrow> bool" where
  "spec_formatted raw out \<longleftrightarrow> three_passes (\<lambda>c. False) raw out"

text \<open>
  The wording with the spans kept to one line: a wrapped span is replaced when its body
  holds no line terminator.
\<close>

definition formatted_within_lines :: "js_string \<Rightarrow> js_string \<Rightarrow> bool" where
  "formatted_within_lines raw out \<longleftrightarrow> three_passes line_terminator raw out"

section \<open>The authentication middleware\<close>

text \<open>
  The middleware verifies the token, loads the user it names and attaches the loaded
  document to the request; a bad token, a rejected lookup and a missing user all answer
  401, and the route does not run.
\<close>

definition authMiddleware :: "bool \<Rightarrow> oid option \<Rightarrow> db \<Rightarrow> user option" where
  "authMiddleware lookup_rejects decoded s =
     (case decoded of
        None \<Rightarrow> None
      | Some i \<Rightarrow> if lookup_rejects then None else findById u_id (users s) i)"

section \<open>Account routes\<close>

subsection \<open>PUT /update\<close>

record update_body =
  b_firstName :: "string option"
  b_lastName :: "string option"
  b_currentPassword :: "string option"
  b_newPassword :: "string option"
  b_profilePicture :: "string option"
  b_about :: "string option"

record token =
  t_id :: oid
  t_email :: string
  t_firstName :: string
  t_lastName :: string
  t_profilePicture :: string

definition sign :: "user \<Rightarrow> token" where
  "sign u = \<lparr>t_id = u_id u, t_email = u_email u, t_firstName = u_firstName u,
              t_lastName = u_lastName u, t_profilePicture = u_profilePicture u\<rparr>"

text \<open>
  \<^verbatim>\<open>profilePicture || user.profilePicture\<close>: a request field counts when it is present
  and not the empty string.
\<close>

fun js_or :: "string option \<Rightarrow> string \<Rightarrow> string" where
  "js_or None d = d"
| "js_or (Some v) d = (if v \<noteq> [] then v else d)"

text \<open>
  The password part of the route: \<open>None\<close> when \<^verbatim>\<open>bcrypt.compare\<close> rejects (no
  current password given), otherwise whether the route goes on and with which stored
  password.
\<close>

definition check_password ::
  "(string \<Rightarrow> string \<Rightarrow> bool) \<Rightarrow> (string \<Rightarrow> string) \<Rightarrow> update_body \<Rightarrow> user \<Rightarrow> (bool \<times> string) option" where
  "check_password compare hash body u =
     (case b_newPassword body of
        None \<Rightarrow> Some (True, u_password u)
      | Some newPassword \<Rightarrow>
          if newPassword = [] then Some (True, u_password u)
          else (case b_currentPassword body of
                  None \<Rightarrow> None
                | Some currentPassword \<Rightarrow>
                    if compare currentPassword (u_password u)
                    then Some (True, hash newPassword)
                    else Some (False, u_password u)))"

text \<open>
  The propagation after the save, run only when the name changed. Neither bulk write is
  guarded: a rejection leaves the route through its outer \<^verbatim>\<open>catch\<close>.
\<close>

definition propagate_name ::
  "faults \<Rightarrow> oid \<Rightarrow> string \<Rightarrow> string \<Rightarrow> string \<Rightarrow> db \<Rightarrow> bool \<times> db" where
  "propagate_name fails userId firstName lastName picture s =
     (if fails Post_updateMany then (False, s)
      else
        let s1 = s\<lparr>posts := updateMany (\<lambda>p. p_author p = userId)
                     (\<lambda>p. p\<lparr>p_firstName := firstName, p_lastName := lastName,
                             p_profilePicture := picture\<rparr>) (posts s)\<rparr>
        in if fails Comment_updateMany then (False, s1)
           else (True, s1\<lparr>comments := updateMany (\<lambda>c. c_author c = userId)
                     (\<lambda>c. c\<lparr>c_firstName := firstName, c_lastName := lastName,
                             c_profilePicture := picture\<rparr>) (comments s1)\<rparr>))"

text \<open>
  The assignments to the loaded user, the save and the propagation. A request without a
  first or last name leaves the required path unset, and the save rejects.
\<close>

definition save_profile ::
  "faults \<Rightarrow> update_body \<Rightarrow> user \<Rightarrow> string \<Rightarrow> db \<Rightarrow> (token \<times> string) response \<times> db" where
  "save_profile fails body user password s =
     (let err = Failure 500 ''Server error'';
          isNameChanged = (Some (u_firstName user) \<noteq> b_firstName body
                           \<or> Some (u_lastName user) \<noteq> b_lastName body)
      in case b_firstName body of
        None \<Rightarrow> (err, s)
      | Some firstName \<Rightarrow>
         (case b_lastName body of
            None \<Rightarrow> (err, s)
          | Some lastName \<Rightarrow>
              let user' = user\<lparr>u_password := password,
                               u_firstName := firstName,
                               u_lastName := lastName,
                               u_about := (case b_about body of None \<Rightarrow> [] | Some a \<Rightarrow> a),
                               u_profilePicture :=
                                 js_or (b_profilePicture body) (u_profilePicture user)\<rparr>
              in if fails User_save \<or> \<not> user_valid user' then (err, s)
                 else
                   let s1 = s\<lparr>users := save_doc u_id user' (users s)\<rparr>;
                       ok = Success 200 (sign user', ''Profile updated successfully'')
                   in if isNameChanged then
                        (let propagated = propagate_name fails (u_id user') firstName lastName
                                (js_or (b_profilePicture body) (u_profilePicture user')) s1
                         in if fst propagated then (ok, snd propagated)
                            else (err, snd propagated))
                      else (ok, s1)))"

definition update ::
  "(string \<Rightarrow> string \<Rightarrow> bool) \<Rightarrow> (string \<Rightarrow> string) \<Rightarrow> faults \<Rightarrow> user \<Rightarrow> update_body \<Rightarrow> db
     \<Rightarrow> (token \<times> string) response \<times> db" where
  "update compare hash fails req_user body s =
     (let err = Failure 500 ''Server error'' in
      if fails User_findById then (err, s)
      else case findById u_id (users s) (u_id req_user) of
        None \<Rightarrow> (err, s)
      | Some user \<Rightarrow>
         (case check_password compare hash body user of
            None \<Rightarrow> (err, s)
          | Some (isMatch, password) \<Rightarrow>
             if \<not> isMatch then (Failure 400 ''Current password is incorrect'', s)
             else save_profile fails body user password s))"

subsection \<open>POST /upload-avatar\<close>

text \<open>
  The inner \<^verbatim>\<open>try\<close> block: the four writes in order; a rejection of one skips the
  ones after it and is swallowed. The last write selects notifications by
  \<^verbatim>\<open>sender._id\<close> and names the path \<^verbatim>\<open>sender.profilePicture\<close>; the schema has
  neither, the filter selects no stored notification, and no notification is changed.
\<close>

definition update_references :: "faults \<Rightarrow> oid \<Rightarrow> string \<Rightarrow> db \<Rightarrow> db" where
  "update_references fails userId url s =
     (if fails User_findByIdAndUpdate then s
      else
        let s1 = s\<lparr>users := updateOne (\<lambda>u. u_id u = userId)
                     (\<lambda>u. u\<lparr>u_profilePicture := url\<rparr>) (users s)\<rparr>
        in if fails Post_updateMany then s1
           else
             let s2 = s1\<lparr>posts := updateMany (\<lambda>p. p_author p = userId)
                           (\<lambda>p. p\<lparr>p_profilePicture := url\<rparr>) (posts s1)\<rparr>
             in if fails Comment_updateMany then s2
                else
                  let s3 = s2\<lparr>comments := updateMany (\<lambda>c. c_author c = userId)
                                (\<lambda>c. c\<lparr>c_profilePicture := url\<rparr>) (comments s2)\<rparr>
                  in if fails Notification_updateMany then s3
                     else s3\<lparr>notifications := updateMany (sender_id_is userId)
                                (\<lambda>n. n) (notifications s3)\<rparr>)"

definition upload_avatar :: "faults \<Rightarrow> user \<Rightarrow> bool \<Rightarrow> string \<Rightarrow> db \<Rightarrow> string response \<times> db" where
  "upload_avatar fails req_user has_file secure_url s =
     (if \<not> has_file then (Failure 400 ''No image file provided'', s)
      else if fails Cloudinary_upload then (Failure 500 ''Error uploading avatar'', s)
      else (Success 200 secure_url, update_references fails (u_id req_user) secure_url s))"

subsection \<open>PUT /subscribe/:userId\<close>

text \<open>
  \<^verbatim>\<open>req.params.userId\<close> is the text written in the URL. \<^verbatim>\<open>User.findById\<close> casts it to
  an ObjectId and accepts any text that spells one, the hexadecimal digits in either
  case among them; a text that spells no ObjectId makes the call reject.
  \<^verbatim>\<open>_id.toString()\<close> is the one canonical spelling, with lower-case digits. A text is
  therefore the canonical spelling of an identifier, another spelling of an identifier
  (say with an upper-case digit), or no identifier at all. The route compares texts
  with \<^verbatim>\<open>===\<close>.
\<close>

datatype id_text = Canonical oid | Variant oid | Malformed

fun castObjectId :: "id_text \<Rightarrow> oid option" where
  "castObjectId (Canonical i) = Some i"
| "castObjectId (Variant i) = Some i"
| "castObjectId Malformed = None"

definition toString :: "oid \<Rightarrow> id_text" where
  "toString i = Canonical i"

definition subscribe ::
  "faults \<Rightarrow> user \<Rightarrow> id_text \<Rightarrow> nat \<Rightarrow> db \<Rightarrow> (bool \<times> nat) response \<times> db" where
  "subscribe fails req_user params_userId now s =
     (let err = Failure 500 ''Error updating subscription'' in
      if fails User_findById then (err, s)
      else case castObjectId params_userId of
        None \<Rightarrow> (err, s)
      | Some target \<Rightarrow>
         (case findById u_id (users s) target of
            None \<Rightarrow> (Failure 404 ''User not found'', s)
          | Some userToSubscribe \<Rightarrow>
              let currentUserId = toString (u_id req_user);
                  targetUserId = params_userId
              in
              if currentUserId = targetUserId
              then (Failure 400 ''Cannot subscribe to yourself'', s)
              else
                let isSubscribed = list_ex (\<lambda>i. toString i = currentUserId)
                                     (u_subscribers userToSubscribe);
                    subscribers' =
                      (if isSubscribed
                       then filter (\<lambda>i. toString i \<noteq> currentUserId)
                              (u_subscribers userToSubscribe)
                       else u_subscribers userToSubscribe @ [u_id req_user]);
                    s1 = (if isSubscribed \<or> fails Notification_save then s
                          else s\<lparr>notifications := notifications s @
                                 [\<lparr>n_recipient = u_id userToSubscribe,
                                   n_sender = u_id req_user,
                                   n_post = None, n_type = TSubscribe, n_read = False,
                                   n_createdAt = now\<rparr>]\<rparr>);
                    user' = userToSubscribe\<lparr>u_subscribers := subscribers'\<rparr>
                in if fails User_save \<or> \<not> user_valid user' then (err, s1)
                   else (Success 200 (\<not> isSubscribed, length subscribers'),
                         s1\<lparr>users := save_doc u_id user' (users s1)\<rparr>)))"

subsection \<open>DELETE /delete-account\<close>

text \<open>The loop over the user's posts; it stops at the first rejected call.\<close>

fun delete_comments_of :: "faults \<Rightarrow> post list \<Rightarrow> comment list \<Rightarrow> bool \<times> comment list" where
  "delete_comments_of fails [] cs = (True, cs)"
| "delete_comments_of fails (p # ps) cs =
     (if fails (Comment_deleteMany_post (p_id p)) then (False, cs)
      else delete_comments_of fails ps (deleteMany (\<lambda>c. c_post c = p_id p) cs))"

definition deleteAccount :: "faults \<Rightarrow> user \<Rightarrow> db \<Rightarrow> string response \<times> db" where
  "deleteAccount fails req_user s =
     (let err = Failure 500 ''Error deleting account'';
          userId = u_id req_user
      in
      if fails Post_find then (err, s)
      else
        let userPosts = filter (\<lambda>p. p_author p = userId) (posts s);
            looped = delete_comments_of fails userPosts (comments s);
            s1 = s\<lparr>comments := snd looped\<rparr>
        in
        if \<not> fst looped then (err, s1)
        else if fails Post_deleteMany then (err, s1)
        else
          let s2 = s1\<lparr>posts := deleteMany (\<lambda>p. p_author p = userId) (posts s1)\<rparr> in
          if fails Comment_deleteMany_author then (err, s2)
          else
            let s3 = s2\<lparr>comments := deleteMany (\<lambda>c. c_author c = userId) (comments s2)\<rparr> in
            if fails Notification_deleteMany then (err, s3)
            else
              let s4 = s3\<lparr>notifications :=
                            deleteMany (\<lambda>n. sender_id_is userId n \<or> n_recipient n = userId)
                              (notifications s3)\<rparr>
              in
              if fails User_updateMany then (err, s4)
              else
                let s5 = s4\<lparr>users := updateMany (\<lambda>u. userId \<in> set (u_subscribers u))
                              (\<lambda>u. u\<lparr>u_subscribers := removeAll userId (u_subscribers u)\<rparr>)
                              (users s4)\<rparr>
                in
                if fails User_findByIdAndDelete then (err, s5)
                else (Success 200 ''Account deleted successfully'',
                      s5\<lparr>users := deleteOne (\<lambda>u. u_id u = userId) (users s5)\<rparr>))"

section \<open>Post routes\<close>

subsection \<open>POST / (create post)\<close>

text \<open>
  The subscriber fan-out after the post is saved, inside its own \<^verbatim>\<open>try\<close>: a rejected
  lookup, a missing user and a rejected \<^verbatim>\<open>insertMany\<close> are all swallowed.
\<close>

definition notify_subscribers :: "faults \<Rightarrow> oid \<Rightarrow> oid \<Rightarrow> nat \<Rightarrow> db \<Rightarrow> db" where
  "notify_subscribers fails userId postId now s =
     (if fails User_findById then s
      else case findById u_id (users s) userId of
        None \<Rightarrow> s
      | Some currentUser \<Rightarrow>
          let notifs = map (\<lambda>subscriberId.
                         \<lparr>n_recipient = subscriberId, n_sender = userId, n_post = Some postId,
                          n_type = TPostCreated, n_read = False, n_createdAt = now\<rparr>)
                         (u_subscribers currentUser)
          in if length notifs > 0
             then (if fails Notification_insertMany then s
                   else s\<lparr>notifications := notifications s @ notifs\<rparr>)
             else s)"

text \<open>
  \<open>new_id\<close> is the identifier the driver gives the new document; the insert is
  rejected when the collection already holds it. \<open>file\<close> is the uploaded image, if
  any, as the link the image host answers with.
\<close>

definition createPost ::
  "faults \<Rightarrow> user \<Rightarrow> string \<Rightarrow> js_string \<Rightarrow> string option \<Rightarrow> oid \<Rightarrow> nat \<Rightarrow> db
     \<Rightarrow> post response \<times> db" where
  "createPost fails req_user title content file new_id now s =
     (if file \<noteq> None \<and> fails Cloudinary_upload then (Failure 500 ''Error uploading image'', s)
      else
        let imageUrl = (case file of None \<Rightarrow> [] | Some secure_url \<Rightarrow> secure_url);
            post = \<lparr>p_id = new_id, p_title = title, p_content = set_content content,
                    p_author = u_id req_user, p_firstName = u_firstName req_user,
                    p_lastName = u_lastName req_user,
                    p_profilePicture = u_profilePicture req_user,
                    p_likes = [], p_image = imageUrl\<rparr>
        in if fails Post_save \<or> \<not> post_valid post \<or> new_id \<in> set (map p_id (posts s))
           then (Failure 500 ''Error creating post'', s)
           else (Success 201 post,
                 notify_subscribers fails (u_id req_user) (p_id post) now
                   (s\<lparr>posts := posts s @ [post]\<rparr>)))"

subsection \<open>PUT /:id/like\<close>

text \<open>
  \<^verbatim>\<open>post.likes.includes(req.user.id)\<close> on the document's array compares identifiers by
  their string form, as the filter two lines below does.
\<close>

definition like :: "faults \<Rightarrow> user \<Rightarrow> oid \<Rightarrow> nat \<Rightarrow> db \<Rightarrow> (oid list \<times> bool) response \<times> db" where
  "like fails req_user postId now s =
     (let err = Failure 500 ''Server error'' in
      if fails Post_findById then (err, s)
      else case findById p_id (posts s) postId of
        None \<Rightarrow> (Failure 404 ''Post not found'', s)
      | Some post \<Rightarrow>
          let isOwnPost = (p_author post = u_id req_user);
              userLiked = (u_id req_user \<in> set (p_likes post))
          in
          if userLiked then
            let post' = post\<lparr>p_likes := filter (\<lambda>i. i \<noteq> u_id req_user) (p_likes post)\<rparr> in
            if fails Post_save \<or> \<not> post_valid post' then (err, s)
            else (Success 200 (p_likes post', \<not> userLiked),
                  s\<lparr>posts := save_doc p_id post' (posts s)\<rparr>)
          else
            let post' = post\<lparr>p_likes := p_likes post @ [u_id req_user]\<rparr> in
            if \<not> isOwnPost \<and> fails Notification_save then (err, s)
            else
              let s1 = (if isOwnPost then s
                        else s\<lparr>notifications := notifications s @
                               [\<lparr>n_recipient = p_author post, n_sender = u_id req_user,
                                 n_post = Some (p_id post), n_type = TLike, n_read = False,
                                 n_createdAt = now\<rparr>]\<rparr>)
              in if fails Post_save \<or> \<not> post_valid post' then (err, s1)
                 else (Success 200 (p_likes post', \<not> userLiked),
                       s1\<lparr>posts := save_doc p_id post' (posts s1)\<rparr>))"

section \<open>Notification routes\<close>

subsection \<open>GET / (notifications)\<close>

text \<open>
  The listing resolves \<^verbatim>\<open>sender\<close> and \<^verbatim>\<open>post\<close> by \<^verbatim>\<open>populate\<close>: the name and
  picture shown for a sender are read from the User collection when the list is
  requested; a reference to a missing document becomes null.
\<close>

record sender_view =
  sv_id :: oid
  sv_firstName :: string
  sv_lastName :: string
  sv_profilePicture :: string

record notification_view =
  v_recipient :: oid
  v_sender :: "sender_view option"
  v_post :: "(oid \<times> string) option"
  v_type :: ntype
  v_read :: bool
  v_createdAt :: nat

definition populate_sender :: "db \<Rightarrow> oid \<Rightarrow> sender_view option" where
  "populate_sender s i =
     map_option (\<lambda>u. \<lparr>sv_id = u_id u, sv_firstName = u_firstName u, sv_lastName = u_lastName u,
                      sv_profilePicture = u_profilePicture u\<rparr>)
       (findById u_id (users s) i)"

definition populate_post :: "db \<Rightarrow> oid option \<Rightarrow> (oid \<times> string) option" where
  "populate_post s r =
     (case r of
        None \<Rightarrow> None
      | Some i \<Rightarrow> map_option (\<lambda>p. (p_id p, p_title p)) (findById p_id (posts s) i))"

definition populate :: "db \<Rightarrow> notification \<Rightarrow> notification_view" where
  "populate s n =
     \<lparr>v_recipient = n_recipient n, v_sender = populate_sender s (n_sender n),
      v_post = populate_post s (n_post n), v_type = n_type n, v_read = n_read n,
      v_createdAt = n_createdAt n\<rparr>"

text \<open>\<^verbatim>\<open>.sort({ createdAt: -1 })\<close>: newest first.\<close>

definition sort_createdAt_desc :: "notification list \<Rightarrow> notification list" where
  "sort_createdAt_desc ns = sort_key (\<lambda>n. - int (n_createdAt n)) ns"

definition getNotifications ::
  "faults \<Rightarrow> user \<Rightarrow> db \<Rightarrow> (notification_view list \<times> nat) response" where
  "getNotifications fails req_user s =
     (if fails Notification_find then Failure 500 ''Error fetching notifications''
      else
        let notifs = map (populate s)
                       (take 10 (sort_createdAt_desc
                          (filter (\<lambda>n. n_recipient n = u_id req_user) (notifications s))))
        in if fails Notification_countDocuments then Failure 500 ''Error fetching notifications''
           else
             let unreadCount = length (filter (\<lambda>n. n_recipient n = u_id req_user \<and> n_read n = False)
                                         (notifications s))
             in Success 200 (notifs, unreadCount))"

section \<open>A small blog, used to run the routes\<close>

definition ann :: user where
  "ann = \<lparr>u_id = 1, u_email = ''ann@x.org'', u_password = ''h1'', u_firstName = ''Ann'',
          u_lastName = ''Lee'', u_dateOfBirth = 0, u_profilePicture = [], u_about = [],
          u_subscribers = []\<rparr>"

definition bob :: user where
  "bob = \<lparr>u_id = 2, u_email = ''bob@x.org'', u_password = ''h2'', u_firstName = ''Bob'',
          u_lastName = ''Ray'', u_dateOfBirth = 0, u_profilePicture = [], u_about = [],
          u_subscribers = [1]\<rparr>"

definition cyd :: user where
  "cyd = \<lparr>u_id = 3, u_email = ''cyd@x.org'', u_password = ''h3'', u_firstName = ''Cyd'',
          u_lastName = ''Moe'', u_dateOfBirth = 0, u_profilePicture = [], u_about = [],
          u_subscribers = [1, 2]\<rparr>"

definition anns_post :: post where
  "anns_post = \<lparr>p_id = 5, p_title = ''hello'', p_content = js ''first'', p_author = 1,
     p_firstName = ''Ann'', p_lastName = ''Lee'', p_profilePicture = [], p_likes = [],
     p_image = []\<rparr>"

definition bobs_post :: post where
  "bobs_post = \<lparr>p_id = 7, p_title = ''t'', p_content = js ''c'', p_author = 2,
     p_firstName = ''Bob'', p_lastName = ''Ray'', p_profilePicture = [], p_likes = [1],
     p_image = []\<rparr>"

definition anns_comment :: comment where
  "anns_comment = \<lparr>c_id = 11, c_content = ''nice'', c_post = 7, c_author = 1,
     c_firstName = ''Ann'', c_lastName = ''Lee'', c_profilePicture = [], c_createdAt = 2\<rparr>"

definition bobs_comment :: comment where
  "bobs_comment = \<lparr>c_id = 12, c_content = ''thanks'', c_post = 5, c_author = 2,
     c_firstName = ''Bob'', c_lastName = ''Ray'', c_profilePicture = [], c_createdAt = 4\<rparr>"

definition anns_like :: notification where
  "anns_like = \<lparr>n_recipient = 2, n_sender = 1, n_post = Some 7, n_type = TLike,
     n_read = False, n_createdAt = 3\<rparr>"

definition bobs_remark :: notification where
  "bobs_remark = \<lparr>n_recipient = 1, n_sender = 2, n_post = Some 5, n_type = TComment,
     n_read = False, n_createdAt = 4\<rparr>"

definition blog :: db where
  "blog = \<lparr>users = [ann, bob, cyd], posts = [anns_post, bobs_post],
            comments = [anns_comment, bobs_comment], notifications = [anns_like, bobs_remark]\<rparr>"

text \<open>A profile edit that changes Ann's first name, and one that changes her last name.\<close>

definition rename_anna :: update_body where
  "rename_anna = \<lparr>b_firstName = Some ''Anna'', b_lastName = Some ''Lee'',
     b_currentPassword = None, b_newPassword = None, b_profilePicture = None,
     b_about = None\<rparr>"

definition rename_ray :: update_body where
  "rename_ray = \<lparr>b_firstName = Some ''Ann'', b_lastName = Some ''Ray'',
     b_currentPassword = None, b_newPassword = None, b_profilePicture = None,
     b_about = None\<rparr>"

text \<open>The post Cyd creates from the raw content \<^verbatim>\<open>**hi**\<close>, as it is stored.\<close>

definition cyds_post :: post where
  "cyds_post = \<lparr>p_id = 9, p_title = ''news'', p_content = js ''<strong>hi</strong>'',
     p_author = 3, p_firstName = ''Cyd'', p_lastName = ''Moe'', p_profilePicture = [],
     p_likes = [], p_image = []\<rparr>"

text \<open>A blog in which Ann holds twelve unread notifications, created at times 1 to 12.\<close>

definition ping :: "nat \<Rightarrow> notification" where
  "ping t = \<lparr>n_recipient = 1, n_sender = 2, n_post = None, n_type = TSubscribe,
              n_read = False, n_createdAt = t\<rparr>"

definition busy_blog :: db where
  "busy_blog = \<lparr>users = [ann, bob], posts = [], comments = [],
                 notifications = map ping [1, 2, 3, 4, 5, 6, 7, 8, 9, 10, 11, 12]\<rparr>"

text \<open>A raw content whose two bold markers stand on different lines.\<close>

definition two_line_bold :: js_string where
  "two_line_bold = js ''**a'' @ [0x0A] @ js ''b**''"

text \<open>The blog after Ann has been put into her own subscriber list.\<close>

definition ann_self :: user where
  "ann_self = ann\<lparr>u_subscribers := [1]\<rparr>"

definition blog_self :: db where
  "blog_self = blog\<lparr>users := [ann_self, bob, cyd],
     notifications := [anns_like, bobs_remark,
       \<lparr>n_recipient = 1, n_sender = 1, n_post = None, n_type = TSubscribe, n_read = False,
        n_createdAt = 10\<rparr>]\<rparr>"

lemmas blog_defs = blog_def ann_def bob_def cyd_def anns_post_def bobs_post_def anns_comment_def
  bobs_comment_def anns_like_def bobs_remark_def

section \<open>Facts about the store operations\<close>

lemma findById_Some: "findById ident ds i = Some d \<Longrightarrow> ident d = i \<and> d \<in> set ds"
  unfolding findById_def by (induction ds) (auto split: if_splits)

lemma findById_save_doc:
  "findById ident (save_doc ident doc ds) i =
     (if i = ident doc then (case findById ident ds i of None \<Rightarrow> None | Some d \<Rightarrow> Some doc)
      else findById ident ds i)"
  unfolding findById_def save_doc_def by (induction ds) auto

lemma authMiddleware_Some:
  "authMiddleware rej (Some i) s = Some me \<Longrightarrow> findById u_id (users s) i = Some me \<and> u_id me = i"
  unfolding authMiddleware_def by (auto split: if_splits dest: findById_Some)

lemma js_or_js_or: "js_or v (js_or v d) = js_or v d"
  by (cases v) auto

lemma save_profile_names:
  assumes ok: "save_profile fails body user password s = (Success code out, s')"
  shows "\<exists>f l. b_firstName body = Some f \<and> b_lastName body = Some l"
proof (cases "b_firstName body")
  case None
  then have "save_profile fails body user password s = (Failure 500 ''Server error'', s)"
    unfolding save_profile_def Let_def by simp
  with ok show ?thesis by simp
next
  case f: (Some f)
  show ?thesis
  proof (cases "b_lastName body")
    case None
    with f have "save_profile fails body user password s = (Failure 500 ''Server error'', s)"
      unfolding save_profile_def Let_def by simp
    with ok show ?thesis by simp
  next
    case (Some l)
    with f show ?thesis by simp
  qed
qed

lemma save_profile_unfold:
  assumes f: "b_firstName body = Some f" and l: "b_lastName body = Some l"
    and u: "user' = user\<lparr>u_password := password, u_firstName := f, u_lastName := l,
                  u_about := (case b_about body of None \<Rightarrow> [] | Some a \<Rightarrow> a),
                  u_profilePicture := js_or (b_profilePicture body) (u_profilePicture user)\<rparr>"
  shows "save_profile fails body user password s =
     (if fails User_save \<or> \<not> user_valid user' then (Failure 500 ''Server error'', s)
      else if u_firstName user \<noteq> f \<or> u_lastName user \<noteq> l
      then (if fst (propagate_name fails (u_id user) f l (u_profilePicture user')
                      (s\<lparr>users := save_doc u_id user' (users s)\<rparr>))
            then (Success 200 (sign user', ''Profile updated successfully''),
                  snd (propagate_name fails (u_id user) f l (u_profilePicture user')
                      (s\<lparr>users := save_doc u_id user' (users s)\<rparr>)))
            else (Failure 500 ''Server error'',
                  snd (propagate_name fails (u_id user) f l (u_profilePicture user')
                      (s\<lparr>users := save_doc u_id user' (users s)\<rparr>))))
      else (Success 200 (sign user', ''Profile updated successfully''),
            s\<lparr>users := save_doc u_id user' (users s)\<rparr>))"
  unfolding save_profile_def Let_def f l u by (simp add: js_or_js_or del: js_or.simps)

lemma update_unfold:
  assumes found: "findById u_id (users s) (u_id me) = Some stored"
  shows "update compare hash fails me body s =
     (if fails User_findById then (Failure 500 ''Server error'', s)
      else case check_password compare hash body stored of
         None \<Rightarrow> (Failure 500 ''Server error'', s)
       | Some (isMatch, password) \<Rightarrow>
           if \<not> isMatch then (Failure 400 ''Current password is incorrect'', s)
           else save_profile fails body stored password s)"
  unfolding update_def Let_def found by simp

lemma update_success:
  assumes found: "findById u_id (users s) (u_id me) = Some stored"
    and ok: "update compare hash fails me body s = (Success code out, s')"
  shows "\<exists>pw. save_profile fails body stored pw s = (Success code out, s')"
proof (cases "check_password compare hash body stored")
  case None
  with ok show ?thesis unfolding update_unfold [OF found] by (simp split: if_splits)
next
  case (Some r)
  obtain m pw where r: "r = (m, pw)" by (cases r)
  from ok Some r have "save_profile fails body stored pw s = (Success code out, s')"
    unfolding update_unfold [OF found] by (simp split: if_splits)
  then show ?thesis by blast
qed


lemma set_updateMany:
  "d \<in> set (updateMany sel upd ds) \<Longrightarrow> \<exists>d0\<in>set ds. d = (if sel d0 then upd d0 else d0)"
  by (auto simp: updateMany_def)

lemma propagate_name_others:
  "users (snd (propagate_name fails i f l pic s)) = users s"
  "notifications (snd (propagate_name fails i f l pic s)) = notifications s"
  by (simp_all add: propagate_name_def Let_def)

lemma propagate_name_posts:
  assumes "fst (propagate_name fails i f l pic s)"
  shows "posts (snd (propagate_name fails i f l pic s)) =
           updateMany (\<lambda>p. p_author p = i)
              (\<lambda>p. p\<lparr>p_firstName := f, p_lastName := l, p_profilePicture := pic\<rparr>) (posts s)"
    and "comments (snd (propagate_name fails i f l pic s)) =
           updateMany (\<lambda>c. c_author c = i)
              (\<lambda>c. c\<lparr>c_firstName := f, c_lastName := l, c_profilePicture := pic\<rparr>) (comments s)"
proof -
  have a: "\<not> fails Post_updateMany"
    using assms by (auto simp: propagate_name_def)
  have b: "\<not> fails Comment_updateMany"
    using assms a by (auto simp: propagate_name_def Let_def)
  show "posts (snd (propagate_name fails i f l pic s)) =
           updateMany (\<lambda>p. p_author p = i)
              (\<lambda>p. p\<lparr>p_firstName := f, p_lastName := l, p_profilePicture := pic\<rparr>) (posts s)"
    using a b by (simp add: propagate_name_def Let_def)
  show "comments (snd (propagate_name fails i f l pic s)) =
           updateMany (\<lambda>c. c_author c = i)
              (\<lambda>c. c\<lparr>c_firstName := f, c_lastName := l, c_profilePicture := pic\<rparr>) (comments s)"
    using a b by (simp add: propagate_name_def Let_def)
qed

lemma updateMany_posts_snapshot:
  assumes "p \<in> set (updateMany (\<lambda>p. p_author p = i)
        (\<lambda>p. p\<lparr>p_firstName := f, p_lastName := l, p_profilePicture := pic\<rparr>) ps)"
    and "p_author p = i"
  shows "p_firstName p = f \<and> p_lastName p = l \<and> p_profilePicture p = pic"
proof -
  from set_updateMany [OF assms(1)] obtain p0 where
    p: "p = (if p_author p0 = i
             then p0\<lparr>p_firstName := f, p_lastName := l, p_profilePicture := pic\<rparr> else p0)"
    by blast
  show ?thesis
  proof (cases "p_author p0 = i")
    case True
    with p show ?thesis by simp
  next
    case False
    with p assms(2) show ?thesis by simp
  qed
qed

lemma updateMany_comments_snapshot:
  assumes "c \<in> set (updateMany (\<lambda>c. c_author c = i)
        (\<lambda>c. c\<lparr>c_firstName := f, c_lastName := l, c_profilePicture := pic\<rparr>) cs)"
    and "c_author c = i"
  shows "c_firstName c = f \<and> c_lastName c = l \<and> c_profilePicture c = pic"
proof -
  from set_updateMany [OF assms(1)] obtain c0 where
    c: "c = (if c_author c0 = i
             then c0\<lparr>c_firstName := f, c_lastName := l, c_profilePicture := pic\<rparr> else c0)"
    by blast
  show ?thesis
  proof (cases "c_author c0 = i")
    case True
    with c show ?thesis by simp
  next
    case False
    with c assms(2) show ?thesis by simp
  qed
qed

lemma delete_comments_of_ok:
  "fst (delete_comments_of fails ps cs) \<longleftrightarrow>
     (\<forall>p\<in>set ps. \<not> fails (Comment_deleteMany_post (p_id p)))"
  by (induction ps arbitrary: cs) auto

lemma map_id_updateMany_subscribers:
  "map u_id (updateMany sel (\<lambda>u. u\<lparr>u_subscribers := g u\<rparr>) us) = map u_id us"
  by (induction us) (auto simp: updateMany_def)

lemma delete_comments_of_takeWhile:
  "delete_comments_of fails ps cs =
     (takeWhile (\<lambda>p. \<not> fails (Comment_deleteMany_post (p_id p))) ps = ps,
      deleteMany (\<lambda>c. c_post c \<in> p_id `
          set (takeWhile (\<lambda>p. \<not> fails (Comment_deleteMany_post (p_id p))) ps)) cs)"
  by (induction ps arbitrary: cs) (auto simp: deleteMany_def intro: filter_cong)

lemma sender_id_is_never [simp]: "sender_id_is userId n = False"
  by (simp add: sender_id_is_def stored_sender_def)

lemma deleteAccount_response:
  "fst (deleteAccount fails me s) =
     (if \<not> fails Post_find
         \<and> (\<forall>p\<in>set (posts s). p_author p = u_id me \<longrightarrow> \<not> fails (Comment_deleteMany_post (p_id p)))
         \<and> \<not> fails Post_deleteMany \<and> \<not> fails Comment_deleteMany_author
         \<and> \<not> fails Notification_deleteMany \<and> \<not> fails User_updateMany
         \<and> \<not> fails User_findByIdAndDelete
      then Success 200 ''Account deleted successfully''
      else Failure 500 ''Error deleting account'')"
  by (auto simp: deleteAccount_def Let_def delete_comments_of_ok)

lemma deleteAccount_failure_keeps_user:
  "\<not> is_success (fst (deleteAccount fails me s)) \<Longrightarrow>
     map u_id (users (snd (deleteAccount fails me s))) = map u_id (users s)"
  by (auto simp: deleteAccount_def Let_def map_id_updateMany_subscribers split: if_splits)

lemma deleteAccount_stops:
  "(fails Post_find \<longrightarrow> snd (deleteAccount fails me s) = s)
   \<and> (fails Post_deleteMany
        \<or> (\<exists>p\<in>set (posts s). p_author p = u_id me \<and> fails (Comment_deleteMany_post (p_id p))) \<longrightarrow>
        posts (snd (deleteAccount fails me s)) = posts s
        \<and> notifications (snd (deleteAccount fails me s)) = notifications s
        \<and> users (snd (deleteAccount fails me s)) = users s)
   \<and> (fails Comment_deleteMany_author \<or> fails Notification_deleteMany \<longrightarrow>
        notifications (snd (deleteAccount fails me s)) = notifications s
        \<and> users (snd (deleteAccount fails me s)) = users s)
   \<and> (fails User_updateMany \<longrightarrow> users (snd (deleteAccount fails me s)) = users s)"
  by (auto simp: deleteAccount_def Let_def delete_comments_of_ok)

lemma update_blog_anna:
  "update (=) id no_faults ann rename_anna blog =
     (Success 200 (\<lparr>t_id = 1, t_email = ''ann@x.org'', t_firstName = ''Anna'',
                     t_lastName = ''Lee'', t_profilePicture = []\<rparr>,
                   ''Profile updated successfully''),
      \<lparr>users = [ann\<lparr>u_firstName := ''Anna''\<rparr>, bob, cyd],
       posts = [anns_post\<lparr>p_firstName := ''Anna''\<rparr>, bobs_post],
       comments = [anns_comment\<lparr>c_firstName := ''Anna''\<rparr>, bobs_comment],
       notifications = [anns_like, bobs_remark]\<rparr>)"
  unfolding update_def save_profile_def propagate_name_def check_password_def Let_def
  by (simp add: no_faults_def blog_defs rename_anna_def findById_def save_doc_def
      updateMany_def user_valid_def sign_def)


lemma toString_eq [simp]: "toString i = toString j \<longleftrightarrow> i = j"
  by (simp add: toString_def)

lemma cast_toString [simp]: "castObjectId (toString i) = Some i"
  by (simp add: toString_def)

lemma other_user_text:
  "castObjectId p = Some T \<Longrightarrow> u_id me \<noteq> T \<Longrightarrow> toString (u_id me) \<noteq> p"
  by auto

lemma subscribe_unfold:
  assumes cast: "castObjectId p = Some T"
    and found: "findById u_id (users s) T = Some t" and other: "toString (u_id me) \<noteq> p"
    and subs: "subs' = (if u_id me \<in> set (u_subscribers t)
                        then filter (\<lambda>i. i \<noteq> u_id me) (u_subscribers t)
                        else u_subscribers t @ [u_id me])"
    and s1: "s1 = (if u_id me \<in> set (u_subscribers t) \<or> fails Notification_save then s
                   else s\<lparr>notifications := notifications s @
                          [\<lparr>n_recipient = u_id t, n_sender = u_id me, n_post = None,
                            n_type = TSubscribe, n_read = False, n_createdAt = now\<rparr>]\<rparr>)"
  shows "subscribe fails me p now s =
     (if fails User_findById then (Failure 500 ''Error updating subscription'', s)
      else if fails User_save \<or> \<not> user_valid (t\<lparr>u_subscribers := subs'\<rparr>)
      then (Failure 500 ''Error updating subscription'', s1)
      else (Success 200 (u_id me \<notin> set (u_subscribers t), length subs'),
            s1\<lparr>users := save_doc u_id (t\<lparr>u_subscribers := subs'\<rparr>) (users s1)\<rparr>))"
  unfolding subscribe_def Let_def subs s1 using other
  by (simp add: cast found list_ex_iff)

lemma subscribe_self_canonical:
  assumes "findById u_id (users s) (u_id me) = Some t"
  shows "subscribe fails me (toString (u_id me)) now s =
     (if fails User_findById then (Failure 500 ''Error updating subscription'', s)
      else (Failure 400 ''Cannot subscribe to yourself'', s))"
  unfolding subscribe_def Let_def using assms by simp

lemma subscribe_success:
  assumes cast: "castObjectId p = Some T"
    and found: "findById u_id (users s) T = Some t" and other: "toString (u_id me) \<noteq> p"
    and ok: "subscribe fails me p now s = (Success code out, s1)"
    and subs: "subs' = (if u_id me \<in> set (u_subscribers t)
                        then filter (\<lambda>i. i \<noteq> u_id me) (u_subscribers t)
                        else u_subscribers t @ [u_id me])"
  shows "findById u_id (users s1) T = Some (t\<lparr>u_subscribers := subs'\<rparr>)"
    and "out = (u_id me \<notin> set (u_subscribers t), length subs')"
    and "notifications s1 = notifications s \<or> u_id me \<notin> set (u_subscribers t)"
proof -
  define s0 where "s0 = (if u_id me \<in> set (u_subscribers t) \<or> fails Notification_save then s
                   else s\<lparr>notifications := notifications s @
                          [\<lparr>n_recipient = u_id t, n_sender = u_id me, n_post = None,
                            n_type = TSubscribe, n_read = False, n_createdAt = now\<rparr>]\<rparr>)"
  note unf = subscribe_unfold [where fails = fails and now = now, OF cast found other subs s0_def]
  have a: "\<not> fails User_findById"
  proof
    assume "fails User_findById"
    with ok show False unfolding unf by simp
  qed
  have b: "\<not> (fails User_save \<or> \<not> user_valid (t\<lparr>u_subscribers := subs'\<rparr>))"
  proof
    assume "fails User_save \<or> \<not> user_valid (t\<lparr>u_subscribers := subs'\<rparr>)"
    with ok a show False unfolding unf by simp
  qed
  from ok a b have out: "out = (u_id me \<notin> set (u_subscribers t), length subs')"
    and s1: "s1 = s0\<lparr>users := save_doc u_id (t\<lparr>u_subscribers := subs'\<rparr>) (users s0)\<rparr>"
    unfolding unf by simp_all
  have us: "users s0 = users s" by (simp add: s0_def)
  from found have tid: "u_id t = T" by (simp add: findById_Some)
  show "findById u_id (users s1) T = Some (t\<lparr>u_subscribers := subs'\<rparr>)"
    by (simp add: s1 us findById_save_doc tid found)
  show "out = (u_id me \<notin> set (u_subscribers t), length subs')" by (rule out)
  show "notifications s1 = notifications s \<or> u_id me \<notin> set (u_subscribers t)"
    by (simp add: s1 s0_def)
qed

lemma filter_absent: "a \<notin> set xs \<Longrightarrow> filter (\<lambda>i. i \<noteq> a) xs = xs"
  by (induction xs) auto

lemma length_filter_distinct:
  "distinct xs \<Longrightarrow> a \<in> set xs \<Longrightarrow> Suc (length (filter (\<lambda>i. i \<noteq> a) xs)) = length xs"
  by (induction xs) (auto simp: filter_absent)

lemma subscribe_keeps_distinct:
  assumes cast: "castObjectId p = Some T"
    and found: "findById u_id (users s) T = Some t"
    and dist: "distinct (u_subscribers t)"
    and ok: "subscribe fails me p now s = (Success code out, s1)"
  shows "\<exists>t1. findById u_id (users s1) T = Some t1 \<and> distinct (u_subscribers t1)"
proof (cases "toString (u_id me) = p")
  case True
  with cast found have "subscribe fails me p now s = (Failure 500 ''Error updating subscription'', s)
      \<or> subscribe fails me p now s = (Failure 400 ''Cannot subscribe to yourself'', s)"
    unfolding subscribe_def Let_def by simp
  with ok show ?thesis by auto
next
  case False
  define ys where "ys = (if u_id me \<in> set (u_subscribers t)
                        then filter (\<lambda>i. i \<noteq> u_id me) (u_subscribers t)
                        else u_subscribers t @ [u_id me])"
  from subscribe_success(1) [OF cast found False ok ys_def]
  have "findById u_id (users s1) T = Some (t\<lparr>u_subscribers := ys\<rparr>)" .
  moreover have "distinct ys" using dist by (simp add: ys_def)
  ultimately show ?thesis by simp
qed

lemma notify_subscribers_unfold:
  assumes found: "findById u_id (users s) uid = Some author"
  shows "notify_subscribers fails uid pid now s =
     (if fails User_findById \<or> (u_subscribers author \<noteq> [] \<and> fails Notification_insertMany) then s
      else s\<lparr>notifications := notifications s @
              map (\<lambda>r. \<lparr>n_recipient = r, n_sender = uid, n_post = Some pid,
                          n_type = TPostCreated, n_read = False, n_createdAt = now\<rparr>)
                (u_subscribers author)\<rparr>)"
  unfolding notify_subscribers_def Let_def found by simp

lemma notify_subscribers_posts:
  "posts (notify_subscribers fails uid pid now s) = posts s"
  unfolding notify_subscribers_def Let_def by (simp split: option.split)

lemma createPost_unfold:
  assumes p: "post = \<lparr>p_id = new_id, p_title = title, p_content = set_content content,
                    p_author = u_id me, p_firstName = u_firstName me,
                    p_lastName = u_lastName me, p_profilePicture = u_profilePicture me,
                    p_likes = [], p_image = (case file of None \<Rightarrow> [] | Some secure_url \<Rightarrow> secure_url)\<rparr>"
  shows "createPost fails me title content file new_id now s =
     (if (file \<noteq> None \<and> fails Cloudinary_upload) then (Failure 500 ''Error uploading image'', s)
      else if fails Post_save \<or> \<not> post_valid post \<or> new_id \<in> set (map p_id (posts s))
      then (Failure 500 ''Error creating post'', s)
      else (Success 201 post,
            notify_subscribers fails (u_id me) new_id now (s\<lparr>posts := posts s @ [post]\<rparr>)))"
  unfolding createPost_def Let_def p by simp

lemma like_unfold:
  assumes found: "findById p_id (posts s) P = Some p"
    and s1: "s1 = (if p_author p = u_id me \<or> u_id me \<in> set (p_likes p) then s
                   else s\<lparr>notifications := notifications s @
                          [\<lparr>n_recipient = p_author p, n_sender = u_id me, n_post = Some (p_id p),
                            n_type = TLike, n_read = False, n_createdAt = now\<rparr>]\<rparr>)"
    and likes: "likes' = (if u_id me \<in> set (p_likes p)
                          then filter (\<lambda>i. i \<noteq> u_id me) (p_likes p)
                          else p_likes p @ [u_id me])"
  shows "like fails me P now s =
     (if fails Post_findById then (Failure 500 ''Server error'', s)
      else if u_id me \<notin> set (p_likes p) \<and> p_author p \<noteq> u_id me \<and> fails Notification_save
      then (Failure 500 ''Server error'', s)
      else if fails Post_save \<or> \<not> post_valid (p\<lparr>p_likes := likes'\<rparr>)
      then (Failure 500 ''Server error'', s1)
      else (Success 200 (likes', u_id me \<notin> set (p_likes p)),
            s1\<lparr>posts := save_doc p_id (p\<lparr>p_likes := likes'\<rparr>) (posts s1)\<rparr>))"
  unfolding like_def Let_def found s1 likes by simp

lemma like_own_post:
  assumes found: "findById p_id (posts s) P = Some p" and own: "p_author p = u_id me"
  shows "notifications (snd (like fails me P now s)) = notifications s"
  unfolding like_unfold [OF found refl refl] using own by simp

lemma like_success:
  assumes found: "findById p_id (posts s) P = Some p"
    and ok: "like fails me P now s = (Success code out, s')"
    and likes: "likes' = (if u_id me \<in> set (p_likes p)
                          then filter (\<lambda>i. i \<noteq> u_id me) (p_likes p)
                          else p_likes p @ [u_id me])"
  shows "findById p_id (posts s') P = Some (p\<lparr>p_likes := likes'\<rparr>)"
    and "notifications s' =
           (if p_author p = u_id me \<or> u_id me \<in> set (p_likes p) then notifications s
            else notifications s @
                   [\<lparr>n_recipient = p_author p, n_sender = u_id me, n_post = Some P,
                     n_type = TLike, n_read = False, n_createdAt = now\<rparr>])"
proof -
  define s1 where "s1 = (if p_author p = u_id me \<or> u_id me \<in> set (p_likes p) then s
                   else s\<lparr>notifications := notifications s @
                          [\<lparr>n_recipient = p_author p, n_sender = u_id me, n_post = Some (p_id p),
                            n_type = TLike, n_read = False, n_createdAt = now\<rparr>]\<rparr>)"
  note unf = like_unfold [where fails = fails and now = now, OF found s1_def likes]
  from found have pid: "p_id p = P" by (simp add: findById_Some)
  from ok have s': "s' = s1\<lparr>posts := save_doc p_id (p\<lparr>p_likes := likes'\<rparr>) (posts s1)\<rparr>"
    unfolding unf by (auto split: if_splits)
  have ps: "posts s1 = posts s" by (simp add: s1_def)
  show "findById p_id (posts s') P = Some (p\<lparr>p_likes := likes'\<rparr>)"
    by (simp add: s' ps findById_save_doc pid found)
  show "notifications s' =
           (if p_author p = u_id me \<or> u_id me \<in> set (p_likes p) then notifications s
            else notifications s @
                   [\<lparr>n_recipient = p_author p, n_sender = u_id me, n_post = Some P,
                     n_type = TLike, n_read = False, n_createdAt = now\<rparr>])"
    by (simp add: s' s1_def pid)
qed

lemma sorted_desc:
  "sorted_wrt (\<lambda>a b. n_createdAt b \<le> n_createdAt a) (sort_createdAt_desc ns)"
proof -
  have "sorted (map (\<lambda>n. - int (n_createdAt n)) (sort_createdAt_desc ns))"
    unfolding sort_createdAt_desc_def by (rule sorted_sort_key)
  then show ?thesis by (simp add: sorted_wrt_map)
qed

lemma set_sorted_desc: "set (sort_createdAt_desc ns) = set ns"
  by (simp add: sort_createdAt_desc_def)

lemma length_sorted_desc: "length (sort_createdAt_desc ns) = length ns"
  by (simp add: sort_createdAt_desc_def)

lemma v_populate [simp]:
  "v_createdAt (populate s n) = n_createdAt n" "v_recipient (populate s n) = n_recipient n"
  "v_read (populate s n) = n_read n" "v_type (populate s n) = n_type n"
  by (simp_all add: populate_def)

lemma subscribe_blog_off:
  "subscribe no_faults ann (Canonical 2) 10 blog =
     (Success 200 (False, 0), blog\<lparr>users := [ann, bob\<lparr>u_subscribers := []\<rparr>, cyd]\<rparr>)"
  unfolding subscribe_def Let_def
  by (simp add: no_faults_def blog_defs findById_def save_doc_def user_valid_def toString_def)

lemma subscribe_blog_on:
  "subscribe no_faults ann (Variant 2) 11
     (blog\<lparr>users := [ann, bob\<lparr>u_subscribers := []\<rparr>, cyd]\<rparr>) =
     (Success 200 (True, 1),
      blog\<lparr>notifications := [anns_like, bobs_remark,
              \<lparr>n_recipient = 2, n_sender = 1, n_post = None, n_type = TSubscribe,
               n_read = False, n_createdAt = 11\<rparr>]\<rparr>)"
  unfolding subscribe_def Let_def
  by (simp add: no_faults_def blog_defs findById_def save_doc_def user_valid_def toString_def)

lemma createPost_blog:
  "createPost no_faults cyd ''news'' (js ''**hi**'') None 9 20 blog =
     (Success 201 cyds_post,
      blog\<lparr>posts := [anns_post, bobs_post, cyds_post],
           notifications := [anns_like, bobs_remark,
              \<lparr>n_recipient = 1, n_sender = 3, n_post = Some 9, n_type = TPostCreated,
               n_read = False, n_createdAt = 20\<rparr>,
              \<lparr>n_recipient = 2, n_sender = 3, n_post = Some 9, n_type = TPostCreated,
               n_read = False, n_createdAt = 20\<rparr>]\<rparr>)"
  unfolding createPost_def notify_subscribers_def Let_def
  by (simp add: no_faults_def blog_defs cyds_post_def findById_def post_valid_def
      set_content_def line_terminator_def js_def)

lemma like_blog_on:
  "like no_faults bob 5 30 blog =
     (Success 200 ([2], True),
      blog\<lparr>posts := [anns_post\<lparr>p_likes := [2]\<rparr>, bobs_post],
           notifications := [anns_like, bobs_remark,
              \<lparr>n_recipient = 1, n_sender = 2, n_post = Some 5, n_type = TLike,
               n_read = False, n_createdAt = 30\<rparr>]\<rparr>)"
  unfolding like_def Let_def
  by (simp add: no_faults_def blog_defs findById_def save_doc_def post_valid_def js_def)

lemma like_blog_off:
  "like no_faults bob 5 31
     (blog\<lparr>posts := [anns_post\<lparr>p_likes := [2]\<rparr>, bobs_post],
           notifications := [anns_like, bobs_remark,
              \<lparr>n_recipient = 1, n_sender = 2, n_post = Some 5, n_type = TLike,
               n_read = False, n_createdAt = 30\<rparr>]\<rparr>) =
     (Success 200 ([], False),
      blog\<lparr>notifications := [anns_like, bobs_remark,
              \<lparr>n_recipient = 1, n_sender = 2, n_post = Some 5, n_type = TLike,
               n_read = False, n_createdAt = 30\<rparr>]\<rparr>)"
  unfolding like_def Let_def
  by (simp add: no_faults_def blog_defs findById_def save_doc_def post_valid_def js_def)

lemma getNotifications_busy:
  "getNotifications no_faults ann busy_blog =
     Success 200 (map (populate busy_blog) (map ping [12, 11, 10, 9, 8, 7, 6, 5, 4, 3]), 12)"
  unfolding getNotifications_def Let_def sort_createdAt_desc_def
  by (simp add: no_faults_def busy_blog_def ping_def ann_def)

lemma lazy_group_sound:
  "lazy_group d t = Some (body, rest) \<Longrightarrow>
     t = body @ d @ rest \<and> (\<forall>c\<in>set body. \<not> line_terminator c)
     \<and> (\<forall>k<length body. \<not> prefix d (drop k t))"
proof (induction t arbitrary: body)
  case Nil
  then show ?case by (simp split: if_splits)
next
  case (Cons c cs)
  show ?case
  proof (cases "prefix d (c # cs)")
    case True
    with Cons.prems have b: "body = []" and r: "rest = drop (length d) (c # cs)" by simp_all
    from True have "c # cs = d @ drop (length d) (c # cs)"
      by (metis append_eq_conv_conj prefixE)
    with b r show ?thesis by simp
  next
    case False
    with Cons.prems have nt: "\<not> line_terminator c" by (simp split: if_splits)
    with False Cons.prems obtain b where lg: "lazy_group d cs = Some (b, rest)" and body: "body = c # b"
      by (auto split: option.splits)
    from Cons.IH [OF lg] have ih: "cs = b @ d @ rest" "\<forall>c\<in>set b. \<not> line_terminator c"
      "\<forall>k<length b. \<not> prefix d (drop k cs)" by blast+
    have "\<forall>k<length body. \<not> prefix d (drop k (c # cs))"
    proof (intro allI impI)
      fix k assume k: "k < length body"
      show "\<not> prefix d (drop k (c # cs))"
      proof (cases k)
        case 0
        with False show ?thesis by simp
      next
        case (Suc j)
        with k body have "j < length b" by simp
        with ih(3) Suc show ?thesis by simp
      qed
    qed
    with ih nt body show ?thesis by simp
  qed
qed

lemma lazy_group_complete:
  assumes "d \<noteq> []"
  shows "(\<forall>c\<in>set body. \<not> line_terminator c) \<Longrightarrow>
     (\<forall>k<length body. \<not> prefix d (drop k (body @ d @ rest))) \<Longrightarrow>
     lazy_group d (body @ d @ rest) = Some (body, rest)"
proof (induction body)
  case Nil
  from assms obtain x xs where d: "d = x # xs" by (cases d) auto
  then show ?case by simp
next
  case (Cons c b)
  from Cons.prems(2) have np: "\<not> prefix d (c # b @ d @ rest)" by force
  from Cons.prems(2) have "\<forall>k<length b. \<not> prefix d (drop k (b @ d @ rest))" by force
  with Cons.IH Cons.prems(1) have "lazy_group d (b @ d @ rest) = Some (b, rest)" by simp
  with np Cons.prems(1) show ?case by simp
qed

lemma span_lazy_group:
  assumes "d \<noteq> []"
  shows "wrapped_span line_terminator d s body rest \<longleftrightarrow>
           prefix d s \<and> lazy_group d (drop (length d) s) = Some (body, rest)"
proof
  assume sp: "wrapped_span line_terminator d s body rest"
  then have s: "s = d @ body @ d @ rest" by (simp add: wrapped_span_def)
  then have "drop (length d) s = body @ d @ rest" by simp
  moreover from sp have "lazy_group d (body @ d @ rest) = Some (body, rest)"
    using lazy_group_complete [OF assms] by (simp add: wrapped_span_def)
  ultimately show "prefix d s \<and> lazy_group d (drop (length d) s) = Some (body, rest)"
    using s by simp
next
  assume a: "prefix d s \<and> lazy_group d (drop (length d) s) = Some (body, rest)"
  then have "s = d @ drop (length d) s" by (metis append_eq_conv_conj prefixE)
  moreover from a lazy_group_sound [of d "drop (length d) s" body rest]
  have "drop (length d) s = body @ d @ rest" "\<forall>c\<in>set body. \<not> line_terminator c"
    "\<forall>k<length body. \<not> prefix d (drop k (drop (length d) s))" by blast+
  ultimately show "wrapped_span line_terminator d s body rest"
    unfolding wrapped_span_def by (metis)
qed

lemma replace_g_pass:
  "d \<noteq> [] \<Longrightarrow> pass line_terminator d op cl s (replace_g d op cl s)"
proof (induction d op cl s rule: replace_g.induct)
  case (1 d op cl)
  show ?case by (simp add: finished)
next
  case (2 d op cl c cs)
  note d = \<open>d \<noteq> []\<close>
  show ?case
  proof (cases "prefix d (c # cs)")
    case False
    then have no: "\<not> (\<exists>body rest. wrapped_span line_terminator d (c # cs) body rest)"
      by (simp add: span_lazy_group [OF d])
    from False d have "pass line_terminator d op cl cs (replace_g d op cl cs)"
      using "2.IH"(3) by simp
    from keep [OF no this] False show ?thesis by simp
  next
    case True
    show ?thesis
    proof (cases "lazy_group d (drop (length d) (c # cs))")
      case None
      then have no: "\<not> (\<exists>body rest. wrapped_span line_terminator d (c # cs) body rest)"
        by (simp add: span_lazy_group [OF d])
      have "pass line_terminator d op cl cs (replace_g d op cl cs)"
        by (rule "2.IH"(1) [OF conjI [OF d True] None d])
      from keep [OF no this] True d None show ?thesis by simp
    next
      case (Some x)
      obtain body rest where x: "x = (body, rest)" by (cases x)
      from True Some x have sp: "wrapped_span line_terminator d (c # cs) body rest"
        by (simp add: span_lazy_group [OF d])
      have "pass line_terminator d op cl rest (replace_g d op cl rest)"
        by (rule "2.IH"(2) [OF conjI [OF d True] Some x [symmetric] d])
      from wrap [OF sp this] True d Some show ?thesis by (simp add: x)
    qed
  qed
qed

text \<open>A text starts with at most one wrapped span, and a pass has one outcome.\<close>

lemma wrapped_span_unique:
  assumes one: "wrapped_span excluded d s body rest"
    and two: "wrapped_span excluded d s body' rest'"
  shows "body' = body \<and> rest' = rest"
proof -
  from one two have "d @ body @ d @ rest = d @ body' @ d @ rest'"
    by (simp add: wrapped_span_def)
  then have eq: "body @ d @ rest = body' @ d @ rest'" by simp
  have len: "length body = length body'"
  proof (rule ccontr)
    assume "length body \<noteq> length body'"
    then consider "length body < length body'" | "length body' < length body" by linarith
    then show False
    proof cases
      case 1
      with two have "\<not> prefix d (drop (length body) (body' @ d @ rest'))"
        by (simp add: wrapped_span_def)
      moreover have "drop (length body) (body @ d @ rest) = d @ rest" by simp
      ultimately show False unfolding eq [symmetric] by simp
    next
      case 2
      with one have "\<not> prefix d (drop (length body') (body @ d @ rest))"
        by (simp add: wrapped_span_def)
      moreover have "drop (length body') (body' @ d @ rest') = d @ rest'" by simp
      ultimately show False unfolding eq by simp
    qed
  qed
  with eq show ?thesis by simp
qed

lemma pass_unique:
  assumes d: "d \<noteq> []"
  shows "pass excluded d op cl s out \<Longrightarrow> pass excluded d op cl s out' \<Longrightarrow> out' = out"
proof (induction arbitrary: out' rule: pass.induct)
  case finished
  from finished.prems show ?case
  proof (cases rule: pass.cases)
    case finished
    then show ?thesis by simp
  next
    case (wrap body rest out)
    then have "wrapped_span excluded d [] body rest" by simp
    with d show ?thesis by (simp add: wrapped_span_def)
  qed
next
  case (wrap s body rest out)
  from wrap.prems show ?case
  proof (cases rule: pass.cases)
    case finished
    with wrap.hyps(1) d show ?thesis by (simp add: wrapped_span_def)
  next
    case w: (wrap body' rest' out2)
    from wrapped_span_unique [OF wrap.hyps(1) w(2)] have "body' = body" "rest' = rest"
      by simp_all
    with w wrap.IH show ?thesis by simp
  next
    case (keep c cs out2)
    with wrap.hyps(1) show ?thesis by blast
  qed
next
  case (keep c cs out)
  from keep.prems show ?case
  proof (cases rule: pass.cases)
    case (wrap body rest out2)
    with keep.hyps(1) show ?thesis by blast
  next
    case k: (keep out2)
    with keep.IH show ?thesis by simp
  qed
qed

lemma three_passes_unique:
  assumes "three_passes excluded raw out" and "three_passes excluded raw out'"
  shows "out' = out"
proof -
  from assms(1) obtain b i where
    1: "pass excluded (js ''**'') (js ''<strong>'') (js ''</strong>'') raw b"
       "pass excluded (js ''*'') (js ''<em>'') (js ''</em>'') b i"
       "pass excluded (js ''__'') (js ''<u>'') (js ''</u>'') i out"
    unfolding three_passes_def by blast
  from assms(2) obtain b' i' where
    2: "pass excluded (js ''**'') (js ''<strong>'') (js ''</strong>'') raw b'"
       "pass excluded (js ''*'') (js ''<em>'') (js ''</em>'') b' i'"
       "pass excluded (js ''__'') (js ''<u>'') (js ''</u>'') i' out'"
    unfolding three_passes_def by blast
  have ne: "js ''**'' \<noteq> []" "js ''*'' \<noteq> []" "js ''__'' \<noteq> []" by (simp_all add: js_def)
  from pass_unique [OF ne(1) 1(1) 2(1)] have "b' = b" .
  with pass_unique [OF ne(2) 1(2)] 2(2) have "i' = i" by simp
  with pass_unique [OF ne(3) 1(3)] 2(3) show ?thesis by simp
qed

lemma pass_replace_g:
  "d \<noteq> [] \<Longrightarrow> pass line_terminator d op cl s out \<longleftrightarrow> out = replace_g d op cl s"
  using replace_g_pass pass_unique by blast

lemma formatted_within_lines_set_content:
  "formatted_within_lines raw out \<longleftrightarrow> out = set_content raw"
  unfolding formatted_within_lines_def three_passes_def set_content_def
  by (simp add: pass_replace_g js_def)

text \<open>A pass keeps a text in which the delimiter's first character does not occur.\<close>

lemma pass_untouched:
  "x \<notin> set s \<Longrightarrow> pass excluded (x # xs) op cl s s"
proof (induction s)
  case Nil
  show ?case by (rule finished)
next
  case (Cons c cs)
  then have "c \<noteq> x" and rest: "pass excluded (x # xs) op cl cs cs" by auto
  then have "\<not> (\<exists>body rest. wrapped_span excluded (x # xs) (c # cs) body rest)"
    by (simp add: wrapped_span_def)
  from keep [OF this rest] show ?case .
qed

lemma spec_formatted_two_line_bold:
  "spec_formatted two_line_bold (js ''<strong>a'' @ [0x0A] @ js ''b</strong>'')"
proof -
  let ?body = "js ''a'' @ [0x0A] @ js ''b''"
  let ?out = "js ''<strong>a'' @ [0x0A] @ js ''b</strong>''"
  have span: "wrapped_span (\<lambda>c. False) (js ''**'') two_line_bold ?body []"
    by (simp add: wrapped_span_def two_line_bold_def js_def less_Suc_eq)
  have "pass (\<lambda>c. False) (js ''**'') (js ''<strong>'') (js ''</strong>'') two_line_bold
          (js ''<strong>'' @ ?body @ js ''</strong>'' @ [])"
    by (rule wrap [OF span finished])
  then have bold: "pass (\<lambda>c. False) (js ''**'') (js ''<strong>'') (js ''</strong>'')
      two_line_bold ?out"
    by (simp add: js_def)
  have italic: "pass (\<lambda>c. False) (js ''*'') (js ''<em>'') (js ''</em>'') ?out ?out"
    unfolding js_def by (simp, rule pass_untouched, simp)
  have underline: "pass (\<lambda>c. False) (js ''__'') (js ''<u>'') (js ''</u>'') ?out ?out"
    unfolding js_def by (simp, rule pass_untouched, simp)
  from bold italic underline show ?thesis
    unfolding spec_formatted_def three_passes_def by blast
qed

lemma createPost_two_line_bold:
  "createPost no_faults cyd ''news'' two_line_bold None 9 20 blog =
     (Success 201 (cyds_post\<lparr>p_content := js ''<em></em>a'' @ [0x0A] @ js ''b<em></em>''\<rparr>),
      blog\<lparr>posts := [anns_post, bobs_post,
                cyds_post\<lparr>p_content := js ''<em></em>a'' @ [0x0A] @ js ''b<em></em>''\<rparr>],
           notifications := [anns_like, bobs_remark,
              \<lparr>n_recipient = 1, n_sender = 3, n_post = Some 9, n_type = TPostCreated,
               n_read = False, n_createdAt = 20\<rparr>,
              \<lparr>n_recipient = 2, n_sender = 3, n_post = Some 9, n_type = TPostCreated,
               n_read = False, n_createdAt = 20\<rparr>]\<rparr>)"
  unfolding createPost_def notify_subscribers_def Let_def
  by (simp add: no_faults_def blog_defs cyds_post_def findById_def post_valid_def
      set_content_def line_terminator_def js_def two_line_bold_def)

lemma createPost_success:
  assumes ok: "createPost fails me title content file new_id now s = (Success code p, s')"
  shows "p_content p = set_content content" and "posts s' = posts s @ [p]"
proof -
  define post where "post = \<lparr>p_id = new_id, p_title = title, p_content = set_content content,
                    p_author = u_id me, p_firstName = u_firstName me,
                    p_lastName = u_lastName me, p_profilePicture = u_profilePicture me,
                    p_likes = [], p_image = (case file of None \<Rightarrow> [] | Some secure_url \<Rightarrow> secure_url)\<rparr>"
  from ok have p: "p = post"
    and s': "s' = notify_subscribers fails (u_id me) new_id now (s\<lparr>posts := posts s @ [post]\<rparr>)"
    unfolding createPost_unfold [OF post_def, of fails] by (auto split: if_splits)
  show "p_content p = set_content content" by (simp add: p post_def)
  show "posts s' = posts s @ [p]" by (simp add: s' notify_subscribers_posts p)
qed

lemma set_content_bold_before_italic:
  "set_content (js ''***a***'') = js ''<strong><em>a</strong></em>''"
  by (simp add: set_content_def line_terminator_def js_def)

lemma upload_avatar_succeeds:
  "\<not> fails Cloudinary_upload \<Longrightarrow>
     fst (upload_avatar fails me True secure_url s) = Success 200 secure_url"
  by (simp add: upload_avatar_def)

lemma delete_comments_of_set:
  "fst (delete_comments_of fails ps cs) \<Longrightarrow>
     set (snd (delete_comments_of fails ps cs)) = {c \<in> set cs. c_post c \<notin> p_id ` set ps}"
  by (induction ps arbitrary: cs) (auto simp: deleteMany_def split: if_splits)

lemma deleteOne_distinct:
  "distinct (map ident ds) \<Longrightarrow> \<forall>d\<in>set (deleteOne (\<lambda>d. ident d = i) ds). ident d \<noteq> i"
  by (induction ds) (auto simp: image_iff)

lemma deleteOne_subset: "set (deleteOne sel ds) \<subseteq> set ds"
  by (induction ds) auto

lemma deleteAccount_cascade:
  assumes ok: "deleteAccount fails me s = (Success code msg, s')"
  shows "(\<forall>c\<in>set (comments s'). c_author c \<noteq> u_id me
            \<and> (\<forall>p\<in>set (posts s). p_author p = u_id me \<longrightarrow> c_post c \<noteq> p_id p))
       \<and> (\<forall>p\<in>set (posts s'). p_author p \<noteq> u_id me)
       \<and> (\<forall>n\<in>set (notifications s'). n_recipient n \<noteq> u_id me)
       \<and> (\<forall>u\<in>set (users s'). u_id me \<notin> set (u_subscribers u))
       \<and> (distinct (map u_id (users s)) \<longrightarrow> (\<forall>u\<in>set (users s'). u_id u \<noteq> u_id me))"
proof -
  let ?U = "u_id me"
  define ups where "ups = filter (\<lambda>p. p_author p = ?U) (posts s)"
  from ok have "is_success (fst (deleteAccount fails me s))" by simp
  then have nf: "\<not> fails Post_find" "\<not> fails Post_deleteMany" "\<not> fails Comment_deleteMany_author"
    "\<not> fails Notification_deleteMany" "\<not> fails User_updateMany" "\<not> fails User_findByIdAndDelete"
    and loop: "\<forall>p\<in>set (posts s). p_author p = ?U \<longrightarrow> \<not> fails (Comment_deleteMany_post (p_id p))"
    unfolding deleteAccount_response by (simp_all split: if_splits)
  from loop have lp: "fst (delete_comments_of fails ups (comments s))"
    by (simp add: delete_comments_of_ok ups_def)
  define us5 where "us5 = updateMany (\<lambda>u. ?U \<in> set (u_subscribers u))
      (\<lambda>u. u\<lparr>u_subscribers := removeAll ?U (u_subscribers u)\<rparr>) (users s)"
  from ok nf lp have s':
    "comments s' = deleteMany (\<lambda>c. c_author c = ?U) (snd (delete_comments_of fails ups (comments s)))"
    "posts s' = deleteMany (\<lambda>p. p_author p = ?U) (posts s)"
    "notifications s' =
       deleteMany (\<lambda>n. sender_id_is ?U n \<or> n_recipient n = ?U) (notifications s)"
    "users s' = deleteOne (\<lambda>u. u_id u = ?U) us5"
    unfolding deleteAccount_def Let_def ups_def us5_def by auto
  have c: "\<forall>c\<in>set (comments s'). c_author c \<noteq> ?U
            \<and> (\<forall>p\<in>set (posts s). p_author p = ?U \<longrightarrow> c_post c \<noteq> p_id p)"
    unfolding s' using delete_comments_of_set [OF lp] by (auto simp: deleteMany_def ups_def)
  have p: "\<forall>p\<in>set (posts s'). p_author p \<noteq> ?U" by (simp add: s' deleteMany_def)
  have n: "\<forall>n\<in>set (notifications s'). n_recipient n \<noteq> ?U" by (simp add: s' deleteMany_def)
  have u5: "\<forall>u\<in>set us5. ?U \<notin> set (u_subscribers u)"
    by (auto simp: us5_def updateMany_def)
  have u: "\<forall>u\<in>set (users s'). ?U \<notin> set (u_subscribers u)"
    using u5 deleteOne_subset [of "\<lambda>u. u_id u = ?U" us5] by (auto simp: s')
  have ids: "map u_id us5 = map u_id (users s)"
    unfolding us5_def by (rule map_id_updateMany_subscribers)
  have g: "distinct (map u_id (users s)) \<longrightarrow> (\<forall>u\<in>set (users s'). u_id u \<noteq> ?U)"
  proof
    assume "distinct (map u_id (users s))"
    then have "distinct (map u_id us5)" by (simp add: ids)
    from deleteOne_distinct [OF this] show "\<forall>u\<in>set (users s'). u_id u \<noteq> ?U"
      by (simp add: s')
  qed
  from c p n u g show ?thesis by (intro conjI)
qed

lemma propagate_name_fails:
  "fails Post_updateMany \<or> fails Comment_updateMany \<Longrightarrow> \<not> fst (propagate_name fails i f l pic s)"
  by (auto simp: propagate_name_def Let_def)

lemma update_propagation_failure:
  assumes found: "findById u_id (users s) (u_id me) = Some stored"
    and pw: "check_password compare hash body stored = Some (True, pw)"
    and f: "b_firstName body = Some f" and l: "b_lastName body = Some l"
    and changed: "u_firstName stored \<noteq> f \<or> u_lastName stored \<noteq> l"
    and u: "user' = stored\<lparr>u_password := pw, u_firstName := f, u_lastName := l,
                  u_about := (case b_about body of None \<Rightarrow> [] | Some a \<Rightarrow> a),
                  u_profilePicture := js_or (b_profilePicture body) (u_profilePicture stored)\<rparr>"
    and saved: "\<not> fails User_findById" "\<not> fails User_save" "user_valid user'"
    and rejected: "fails Post_updateMany \<or> fails Comment_updateMany"
  shows "fst (update compare hash fails me body s) = Failure 500 ''Server error''
       \<and> users (snd (update compare hash fails me body s)) = save_doc u_id user' (users s)"
proof -
  let ?p = "propagate_name fails (u_id stored) f l (u_profilePicture user')
              (s\<lparr>users := save_doc u_id user' (users s)\<rparr>)"
  have "update compare hash fails me body s = save_profile fails body stored pw s"
    unfolding update_unfold [OF found] using saved(1) pw by simp
  also have "\<dots> = (Failure 500 ''Server error'', snd ?p)"
    unfolding save_profile_unfold [OF f l u]
    using saved changed propagate_name_fails [OF rejected] by simp
  finally show ?thesis by (simp add: propagate_name_others)
qed

lemma upload_avatar_commits:
  "\<not> fails Cloudinary_upload \<Longrightarrow> \<not> fails User_findByIdAndUpdate \<Longrightarrow>
     users (snd (upload_avatar fails me True secure_url s)) =
       updateOne (\<lambda>u. u_id u = u_id me) (\<lambda>u. u\<lparr>u_profilePicture := secure_url\<rparr>) (users s)"
  unfolding upload_avatar_def update_references_def Let_def by simp

section \<open>Subscribing to oneself\<close>

text \<open>
  C6, at a concrete request: Ann calls the subscribe route with her own identifier,
  written in the URL in another spelling than the canonical one (an upper-case
  hexadecimal digit), and no store call rejects. The lookup casts the text and finds
  Ann; the comparison of the raw text with the canonical string of her identifier is
  false. The route answers 200 with \<open>isSubscribed\<close> true and count 1, puts Ann into her
  own subscriber list and stores a \<open>subscribe\<close> notification from Ann to Ann. With
  the canonical spelling the route answers 400 when the lookup answers, and changes
  nothing (lemma \<open>subscribe_self_canonical\<close>).
\<close>

theorem subscribe_self_other_spelling:
  "authMiddleware False (Some 1) blog = Some ann
   \<and> castObjectId (Variant 1) = Some (u_id ann)
   \<and> subscribe no_faults ann (Variant 1) 10 blog =
        (Success 200 (True, 1),
         blog\<lparr>users := [ann\<lparr>u_subscribers := [u_id ann]\<rparr>, bob, cyd],
              notifications := [anns_like, bobs_remark,
                \<lparr>n_recipient = u_id ann, n_sender = u_id ann, n_post = None,
                 n_type = TSubscribe, n_read = False, n_createdAt = 10\<rparr>]\<rparr>)"
  unfolding subscribe_def authMiddleware_def Let_def
  by (simp add: no_faults_def blog_defs findById_def save_doc_def user_valid_def toString_def)

section \<open>Account deletion\<close>

text \<open>
  C1, at a concrete blog: Ann (user 1) has a post with a comment by Bob, has commented
  on and liked Bob's post, so Bob holds a \<open>like\<close> notification whose sender is Ann,
  and Ann is one of Bob's subscribers. Ann deletes her account and no store call
  rejects. The route answers 200, removes Ann's record, her post, both comments and the
  notification addressed to her, and takes her out of Bob's subscribers; the
  notification sent by Ann is still stored: the filter \<^verbatim>\<open>'sender._id'\<close> selects
  nothing, because the stored sender is an ObjectId. The rest of the cascade is as
  stated, for every state (lemma \<open>deleteAccount_cascade\<close>).
\<close>

theorem deleteAccount_keeps_sent_notifications:
  "deleteAccount no_faults ann blog =
     (Success 200 ''Account deleted successfully'',
      \<lparr>users = [bob\<lparr>u_subscribers := []\<rparr>, cyd\<lparr>u_subscribers := [2]\<rparr>],
       posts = [bobs_post], comments = [], notifications = [anns_like]\<rparr>)
   \<and> n_sender anns_like = u_id ann"
  unfolding deleteAccount_def Let_def
  by (simp add: no_faults_def blog_defs deleteMany_def updateMany_def sender_id_is_def
      stored_sender_def)

text \<open>
  C4 as stated fails: here \<^verbatim>\<open>Notification.deleteMany\<close> (the fifth step) rejects while
  Ann deletes her account. The route answers 500; her post and the comments are gone,
  but she is still one of Bob's subscribers and her record is still stored: the two
  steps after the failed one did not run.
\<close>

theorem deleteAccount_step_failure_reported:
  "deleteAccount (\<lambda>c. c = Notification_deleteMany) ann blog =
     (Failure 500 ''Error deleting account'',
      \<lparr>users = [ann, bob, cyd], posts = [bobs_post], comments = [],
       notifications = [anns_like, bobs_remark]\<rparr>)
   \<and> u_subscribers bob = [u_id ann]"
  unfolding deleteAccount_def Let_def
  by (simp add: blog_defs deleteMany_def)

text \<open>
  C4 as the code has it. All steps share one \<^verbatim>\<open>try\<close> block, so the first call that
  rejects ends the route: the answer is 500 ``Error deleting account'', the steps after
  it do not run, and what the steps before it wrote stays written. The outcome in full,
  by the first rejected call: \<^verbatim>\<open>Post.find\<close> leaves the state as it was; a rejected
  \<^verbatim>\<open>Comment.deleteMany\<close> of the loop leaves the comments of the posts reached before it
  deleted, and a rejected \<^verbatim>\<open>Post.deleteMany\<close> the comments of all the user's posts;
  after that each step adds its own effect to the state the failure leaves: the user's
  posts deleted, the user's comments deleted, the notifications addressed to the user
  deleted, the user pulled from the subscriber lists. Only when no call rejects is the
  user's record deleted and the answer 200.
\<close>

theorem deleteAccount_failure_aborts:
  "let U = u_id me;
       err = Failure 500 ''Error deleting account'';
       mine = filter (\<lambda>p. p_author p = U) (posts s);
       reached = takeWhile (\<lambda>p. \<not> fails (Comment_deleteMany_post (p_id p))) mine;
       s1 = s\<lparr>comments := deleteMany (\<lambda>c. c_post c \<in> p_id ` set reached) (comments s)\<rparr>;
       s2 = s1\<lparr>posts := deleteMany (\<lambda>p. p_author p = U) (posts s)\<rparr>;
       s3 = s2\<lparr>comments := deleteMany (\<lambda>c. c_author c = U) (comments s1)\<rparr>;
       s4 = s3\<lparr>notifications := deleteMany (\<lambda>n. n_recipient n = U) (notifications s)\<rparr>;
       s5 = s4\<lparr>users := updateMany (\<lambda>u. U \<in> set (u_subscribers u))
                   (\<lambda>u. u\<lparr>u_subscribers := removeAll U (u_subscribers u)\<rparr>) (users s)\<rparr>;
       s6 = s5\<lparr>users := deleteOne (\<lambda>u. u_id u = U) (users s5)\<rparr>
   in deleteAccount fails me s =
        (if fails Post_find then (err, s)
         else if reached \<noteq> mine \<or> fails Post_deleteMany then (err, s1)
         else if fails Comment_deleteMany_author then (err, s2)
         else if fails Notification_deleteMany then (err, s3)
         else if fails User_updateMany then (err, s4)
         else if fails User_findByIdAndDelete then (err, s5)
         else (Success 200 ''Account deleted successfully'', s6))"
proof -
  let ?mine = "filter (\<lambda>p. p_author p = u_id me) (posts s)"
  let ?reached = "takeWhile (\<lambda>p. \<not> fails (Comment_deleteMany_post (p_id p))) ?mine"
  consider (at_find) "fails Post_find"
    | (at_loop) "\<not> fails Post_find" "?reached \<noteq> ?mine \<or> fails Post_deleteMany"
    | (at_comments) "\<not> fails Post_find" "?reached = ?mine" "\<not> fails Post_deleteMany"
        "fails Comment_deleteMany_author"
    | (at_notifications) "\<not> fails Post_find" "?reached = ?mine" "\<not> fails Post_deleteMany"
        "\<not> fails Comment_deleteMany_author" "fails Notification_deleteMany"
    | (at_pull) "\<not> fails Post_find" "?reached = ?mine" "\<not> fails Post_deleteMany"
        "\<not> fails Comment_deleteMany_author" "\<not> fails Notification_deleteMany"
        "fails User_updateMany"
    | (at_record) "\<not> fails Post_find" "?reached = ?mine" "\<not> fails Post_deleteMany"
        "\<not> fails Comment_deleteMany_author" "\<not> fails Notification_deleteMany"
        "\<not> fails User_updateMany" "fails User_findByIdAndDelete"
    | (at_none) "\<not> fails Post_find" "?reached = ?mine" "\<not> fails Post_deleteMany"
        "\<not> fails Comment_deleteMany_author" "\<not> fails Notification_deleteMany"
        "\<not> fails User_updateMany" "\<not> fails User_findByIdAndDelete"
    by blast
  then show ?thesis
  proof cases
    case at_find
    then show ?thesis unfolding deleteAccount_def Let_def by simp
  next
    case at_loop
    then show ?thesis
      unfolding deleteAccount_def Let_def delete_comments_of_takeWhile fst_conv snd_conv
      by (cases "?reached = ?mine") simp_all
  next
    case at_comments
    then show ?thesis
      unfolding deleteAccount_def Let_def delete_comments_of_takeWhile fst_conv snd_conv
      by simp
  next
    case at_notifications
    then show ?thesis
      unfolding deleteAccount_def Let_def delete_comments_of_takeWhile fst_conv snd_conv
      by simp
  next
    case at_pull
    then show ?thesis
      unfolding deleteAccount_def Let_def delete_comments_of_takeWhile fst_conv snd_conv
      by simp
  next
    case at_record
    then show ?thesis
      unfolding deleteAccount_def Let_def delete_comments_of_takeWhile fst_conv snd_conv
      by simp
  next
    case at_none
    then show ?thesis
      unfolding deleteAccount_def Let_def delete_comments_of_takeWhile fst_conv snd_conv
      by simp
  qed
qed

theorem deleteAccount_failure_aborts_witness:
  "deleteAccount (\<lambda>c. c = User_updateMany) ann blog =
     (Failure 500 ''Error deleting account'',
      \<lparr>users = [ann, bob, cyd], posts = [bobs_post], comments = [],
       notifications = [anns_like]\<rparr>)"
  using deleteAccount_failure_aborts [where fails = "\<lambda>c. c = User_updateMany" and me = ann
      and s = blog]
  by (simp add: Let_def blog_defs deleteMany_def)

section \<open>Profile edits\<close>

text \<open>
  C2 as stated fails for notifications: Ann has sent Bob a notification, and changes her
  first name, or her last name. Both edits succeed, and after either the stored
  notifications are the same two records as before; the one sent by Ann holds her
  identifier and no name or picture.
\<close>

theorem update_leaves_notifications:
  "is_success (fst (update (=) id no_faults ann rename_anna blog))
   \<and> notifications (snd (update (=) id no_faults ann rename_anna blog)) = [anns_like, bobs_remark]
   \<and> is_success (fst (update (=) id no_faults ann rename_ray blog))
   \<and> notifications (snd (update (=) id no_faults ann rename_ray blog)) = [anns_like, bobs_remark]
   \<and> anns_like = \<lparr>n_recipient = 2, n_sender = u_id ann, n_post = Some 7, n_type = TLike,
                    n_read = False, n_createdAt = 3\<rparr>"
  unfolding update_def save_profile_def propagate_name_def check_password_def Let_def
  by (simp add: no_faults_def blog_defs rename_anna_def rename_ray_def findById_def save_doc_def
      updateMany_def user_valid_def sign_def)

text \<open>
  C2 as the code has it. When a profile edit that changes the first or last name
  succeeds, every post and every comment authored by the user carries the new first
  name, the new last name and the user's picture (the submitted one if any, else the
  stored one). The stored notifications are left as they were: they hold the sender's
  identifier only, and the listing reads the sender's name and picture from the user
  record, which now has the new values.
\<close>

theorem update_propagates_name:
  assumes found: "findById u_id (users s) (u_id me) = Some stored"
    and changed: "b_firstName body \<noteq> Some (u_firstName stored) \<or> b_lastName body \<noteq> Some (u_lastName stored)"
    and ok: "update compare hash fails me body s = (Success code out, s')"
  shows "\<exists>f l. b_firstName body = Some f \<and> b_lastName body = Some l
      \<and> (\<forall>p\<in>set (posts s'). p_author p = u_id me \<longrightarrow>
            p_firstName p = f \<and> p_lastName p = l
            \<and> p_profilePicture p = js_or (b_profilePicture body) (u_profilePicture stored))
      \<and> (\<forall>c\<in>set (comments s'). c_author c = u_id me \<longrightarrow>
            c_firstName c = f \<and> c_lastName c = l
            \<and> c_profilePicture c = js_or (b_profilePicture body) (u_profilePicture stored))
      \<and> notifications s' = notifications s
      \<and> populate_sender s' (u_id me) =
            Some \<lparr>sv_id = u_id me, sv_firstName = f, sv_lastName = l,
                  sv_profilePicture = js_or (b_profilePicture body) (u_profilePicture stored)\<rparr>"
proof -
  from found have sid: "u_id stored = u_id me" by (simp add: findById_Some)
  from update_success [OF found ok] obtain pw
    where sp: "save_profile fails body stored pw s = (Success code out, s')" by blast
  from save_profile_names [OF sp] obtain f l where
    f: "b_firstName body = Some f" and l: "b_lastName body = Some l" by blast
  define pic where "pic = js_or (b_profilePicture body) (u_profilePicture stored)"
  define user' where "user' = stored\<lparr>u_password := pw, u_firstName := f, u_lastName := l,
      u_about := (case b_about body of None \<Rightarrow> [] | Some a \<Rightarrow> a), u_profilePicture := pic\<rparr>"
  define s1 where "s1 = s\<lparr>users := save_doc u_id user' (users s)\<rparr>"
  have upic: "u_profilePicture user' = pic" by (simp add: user'_def)
  have u: "user' = stored\<lparr>u_password := pw, u_firstName := f, u_lastName := l,
      u_about := (case b_about body of None \<Rightarrow> [] | Some a \<Rightarrow> a),
      u_profilePicture := js_or (b_profilePicture body) (u_profilePicture stored)\<rparr>"
    by (simp add: user'_def pic_def)
  from changed f l have ch: "u_firstName stored \<noteq> f \<or> u_lastName stored \<noteq> l" by auto
  have valid: "\<not> (fails User_save \<or> \<not> user_valid user')"
  proof
    assume "fails User_save \<or> \<not> user_valid user'"
    then have "save_profile fails body stored pw s = (Failure 500 ''Server error'', s)"
      unfolding save_profile_unfold [OF f l u] by simp
    with sp show False by simp
  qed
  let ?p = "propagate_name fails (u_id me) f l pic s1"
  from valid ch have eq: "save_profile fails body stored pw s =
      (if fst ?p then (Success 200 (sign user', ''Profile updated successfully''), snd ?p)
       else (Failure 500 ''Server error'', snd ?p))"
    unfolding save_profile_unfold [OF f l u] upic s1_def sid by simp
  have pr: "fst ?p"
  proof (rule ccontr)
    assume "\<not> fst ?p"
    with eq sp show False by simp
  qed
  with eq sp have s': "s' = snd ?p" by simp
  have fu: "findById u_id (users s1) (u_id me) = Some user'"
    by (simp add: s1_def findById_save_doc user'_def sid found)
  have po: "\<forall>p\<in>set (posts s'). p_author p = u_id me \<longrightarrow> p_firstName p = f \<and> p_lastName p = l
        \<and> p_profilePicture p = pic"
    unfolding s' propagate_name_posts(1) [OF pr] using updateMany_posts_snapshot by blast
  have co: "\<forall>c\<in>set (comments s'). c_author c = u_id me \<longrightarrow> c_firstName c = f \<and> c_lastName c = l
        \<and> c_profilePicture c = pic"
    unfolding s' propagate_name_posts(2) [OF pr] using updateMany_comments_snapshot by blast
  have no: "notifications s' = notifications s"
    by (simp add: s' propagate_name_others s1_def)
  have us: "users s' = users s1" by (simp add: s' propagate_name_others)
  have "populate_sender s' (u_id me) =
          Some \<lparr>sv_id = u_id me, sv_firstName = f, sv_lastName = l, sv_profilePicture = pic\<rparr>"
    unfolding populate_sender_def us fu by (simp add: user'_def sid)
  then have ps: "populate_sender s' (u_id me) =
          Some \<lparr>sv_id = u_id me, sv_firstName = f, sv_lastName = l,
            sv_profilePicture = js_or (b_profilePicture body) (u_profilePicture stored)\<rparr>"
    by (simp add: pic_def)
  show ?thesis
  proof (intro exI conjI)
    show "b_firstName body = Some f" by (rule f)
    show "b_lastName body = Some l" by (rule l)
    show "\<forall>p\<in>set (posts s'). p_author p = u_id me \<longrightarrow> p_firstName p = f \<and> p_lastName p = l
        \<and> p_profilePicture p = js_or (b_profilePicture body) (u_profilePicture stored)"
      using po by (simp add: pic_def)
    show "\<forall>c\<in>set (comments s'). c_author c = u_id me \<longrightarrow> c_firstName c = f \<and> c_lastName c = l
        \<and> c_profilePicture c = js_or (b_profilePicture body) (u_profilePicture stored)"
      using co by (simp add: pic_def)
    show "notifications s' = notifications s" by (rule no)
    show "populate_sender s' (u_id me) =
          Some \<lparr>sv_id = u_id me, sv_firstName = f, sv_lastName = l,
            sv_profilePicture = js_or (b_profilePicture body) (u_profilePicture stored)\<rparr>"
      by (rule ps)
  qed
qed


theorem update_propagates_name_witness:
  "findById u_id (users blog) (u_id ann) = Some ann
   \<and> b_firstName rename_anna \<noteq> Some (u_firstName ann)
   \<and> is_success (fst (update (=) id no_faults ann rename_anna blog))
   \<and> list_all (\<lambda>p. p_firstName p = ''Anna'' \<and> p_lastName p = ''Lee'')
        (filter (\<lambda>p. p_author p = 1) (posts (snd (update (=) id no_faults ann rename_anna blog))))
   \<and> filter (\<lambda>p. p_author p = 1) (posts (snd (update (=) id no_faults ann rename_anna blog))) \<noteq> []
   \<and> populate_sender (snd (update (=) id no_faults ann rename_anna blog)) 1 =
        Some \<lparr>sv_id = 1, sv_firstName = ''Anna'', sv_lastName = ''Lee'', sv_profilePicture = []\<rparr>"
proof -
  have found: "findById u_id (users blog) (u_id ann) = Some ann"
    by (simp add: findById_def blog_defs)
  have changed: "b_firstName rename_anna \<noteq> Some (u_firstName ann)
                 \<or> b_lastName rename_anna \<noteq> Some (u_lastName ann)"
    by (simp add: rename_anna_def ann_def)
  note ok = update_blog_anna
  from update_propagates_name [OF found changed ok]
  have "(\<forall>p\<in>set (posts (snd (update (=) id no_faults ann rename_anna blog))).
         p_author p = 1 \<longrightarrow> p_firstName p = ''Anna'' \<and> p_lastName p = ''Lee'')
      \<and> populate_sender (snd (update (=) id no_faults ann rename_anna blog)) 1 =
        Some \<lparr>sv_id = 1, sv_firstName = ''Anna'', sv_lastName = ''Lee'', sv_profilePicture = []\<rparr>"
    unfolding ok by (simp add: rename_anna_def ann_def blog_def)
  then have "list_all (\<lambda>p. p_firstName p = ''Anna'' \<and> p_lastName p = ''Lee'')
        (filter (\<lambda>p. p_author p = 1) (posts (snd (update (=) id no_faults ann rename_anna blog))))
      \<and> populate_sender (snd (update (=) id no_faults ann rename_anna blog)) 1 =
        Some \<lparr>sv_id = 1, sv_firstName = ''Anna'', sv_lastName = ''Lee'', sv_profilePicture = []\<rparr>"
    by (simp add: list_all_iff)
  moreover have "is_success (fst (update (=) id no_faults ann rename_anna blog))"
    unfolding ok by simp
  moreover have "filter (\<lambda>p. p_author p = 1)
      (posts (snd (update (=) id no_faults ann rename_anna blog))) \<noteq> []"
    unfolding ok by (simp add: anns_post_def)
  moreover have "b_firstName rename_anna \<noteq> Some (u_firstName ann)"
    by (simp add: rename_anna_def ann_def)
  ultimately show ?thesis using found by simp
qed

text \<open>
  C3, at a concrete request: Ann changes her first name and \<^verbatim>\<open>Post.updateMany\<close>, the
  first propagation write, rejects. The route answers 500 ``Server error'', and the user
  record keeps the new name: the save is not undone. The same happens when
  \<^verbatim>\<open>Comment.updateMany\<close> rejects, after the posts have been rewritten (in general:
  lemma \<open>update_propagation_failure\<close>). The avatar route answers success whatever its
  propagation writes do (lemmas \<open>upload_avatar_succeeds\<close>, \<open>upload_avatar_commits\<close>).
\<close>

theorem update_propagation_failure_reported:
  "update (=) id (\<lambda>c. c = Post_updateMany) ann rename_anna blog =
     (Failure 500 ''Server error'',
      \<lparr>users = [ann\<lparr>u_firstName := ''Anna''\<rparr>, bob, cyd], posts = [anns_post, bobs_post],
       comments = [anns_comment, bobs_comment], notifications = [anns_like, bobs_remark]\<rparr>)
   \<and> update (=) id (\<lambda>c. c = Comment_updateMany) ann rename_anna blog =
     (Failure 500 ''Server error'',
      \<lparr>users = [ann\<lparr>u_firstName := ''Anna''\<rparr>, bob, cyd],
       posts = [anns_post\<lparr>p_firstName := ''Anna''\<rparr>, bobs_post],
       comments = [anns_comment, bobs_comment], notifications = [anns_like, bobs_remark]\<rparr>)"
  unfolding update_def save_profile_def propagate_name_def check_password_def Let_def
  by (simp add: blog_defs rename_anna_def findById_def save_doc_def
      updateMany_def user_valid_def sign_def)

section \<open>Toggling a subscription\<close>

text \<open>
  C5. For distinct users, where the target's subscriber list holds no identifier twice
  (the route never adds one that is present), two successful calls of the subscribe
  route in a row, each naming the target in any spelling, leave the target with the
  same set of subscribers and the same number of them as before; the first call reports
  the flipped membership, the second reports the original membership and the original
  count.
\<close>

theorem subscribe_twice_restores:
  assumes ne: "u_id me \<noteq> T"
    and cast1: "castObjectId p1 = Some T" and cast2: "castObjectId p2 = Some T"
    and found: "findById u_id (users s) T = Some t"
    and dist: "distinct (u_subscribers t)"
    and r1: "subscribe f1 me p1 now1 s = (Success c1 out1, s1)"
    and r2: "subscribe f2 me p2 now2 s1 = (Success c2 out2, s2)"
  shows "\<exists>t2. findById u_id (users s2) T = Some t2
      \<and> set (u_subscribers t2) = set (u_subscribers t)
      \<and> length (u_subscribers t2) = length (u_subscribers t)
      \<and> out2 = (u_id me \<in> set (u_subscribers t), length (u_subscribers t))
      \<and> fst out1 = (u_id me \<notin> set (u_subscribers t))"
proof -
  let ?a = "u_id me"
  define xs where "xs = u_subscribers t"
  define ys where "ys = (if ?a \<in> set xs then filter (\<lambda>i. i \<noteq> ?a) xs else xs @ [?a])"
  define zs where "zs = (if ?a \<in> set ys then filter (\<lambda>i. i \<noteq> ?a) ys else ys @ [?a])"
  have ys: "ys = (if ?a \<in> set (u_subscribers t)
                  then filter (\<lambda>i. i \<noteq> ?a) (u_subscribers t) else u_subscribers t @ [?a])"
    by (simp add: ys_def xs_def)
  note first = subscribe_success [OF cast1 found other_user_text [OF cast1 ne] r1 ys]
  have zs: "zs = (if ?a \<in> set (u_subscribers (t\<lparr>u_subscribers := ys\<rparr>))
                  then filter (\<lambda>i. i \<noteq> ?a) (u_subscribers (t\<lparr>u_subscribers := ys\<rparr>))
                  else u_subscribers (t\<lparr>u_subscribers := ys\<rparr>) @ [?a])"
    by (simp add: zs_def)
  note second = subscribe_success [OF cast2 first(1) other_user_text [OF cast2 ne] r2 zs]
  have dx: "distinct xs" using dist by (simp add: xs_def)
  have flip: "?a \<in> set ys \<longleftrightarrow> ?a \<notin> set xs" by (auto simp: ys_def)
  have set_eq: "set zs = set xs"
    by (cases "?a \<in> set xs") (auto simp: zs_def ys_def filter_absent)
  have len_eq: "length zs = length xs"
  proof (cases "?a \<in> set xs")
    case True
    then have "zs = filter (\<lambda>i. i \<noteq> ?a) xs @ [?a]" by (simp add: zs_def ys_def)
    with length_filter_distinct [OF dx True] show ?thesis by simp
  next
    case False
    then have "zs = xs" by (simp add: zs_def ys_def filter_absent)
    then show ?thesis by simp
  qed
  have o2: "out2 = (?a \<in> set xs, length xs)"
    using second(2) flip len_eq by simp
  have o1: "fst out1 = (?a \<notin> set xs)" using first(2) by (simp add: xs_def)
  show ?thesis
  proof (intro exI conjI)
    show "findById u_id (users s2) T = Some (t\<lparr>u_subscribers := ys, u_subscribers := zs\<rparr>)"
      using second(1) by simp
    show "set (u_subscribers (t\<lparr>u_subscribers := ys, u_subscribers := zs\<rparr>)) = set (u_subscribers t)"
      using set_eq by (simp add: xs_def)
    show "length (u_subscribers (t\<lparr>u_subscribers := ys, u_subscribers := zs\<rparr>)) = length (u_subscribers t)"
      using len_eq by (simp add: xs_def)
    show "out2 = (?a \<in> set (u_subscribers t), length (u_subscribers t))"
      using o2 by (simp add: xs_def)
    show "fst out1 = (?a \<notin> set (u_subscribers t))" using o1 by (simp add: xs_def)
  qed
qed

theorem subscribe_twice_restores_witness:
  "u_id ann \<noteq> 2 \<and> castObjectId (Canonical 2) = Some 2 \<and> castObjectId (Variant 2) = Some 2
   \<and> findById u_id (users blog) 2 = Some bob \<and> distinct (u_subscribers bob)
   \<and> fst (subscribe no_faults ann (Canonical 2) 10 blog) = Success 200 (False, 0)
   \<and> fst (subscribe no_faults ann (Variant 2) 11
             (snd (subscribe no_faults ann (Canonical 2) 10 blog))) = Success 200 (True, 1)
   \<and> map_option (\<lambda>u. length (u_subscribers u))
        (findById u_id
           (users (snd (subscribe no_faults ann (Variant 2) 11
                          (snd (subscribe no_faults ann (Canonical 2) 10 blog))))) 2)
        = Some 1"
proof -
  have ne: "u_id ann \<noteq> 2" by (simp add: ann_def)
  have c1: "castObjectId (Canonical 2) = Some 2" and c2: "castObjectId (Variant 2) = Some 2"
    by simp_all
  have found: "findById u_id (users blog) 2 = Some bob" by (simp add: findById_def blog_defs)
  have dist: "distinct (u_subscribers bob)" by (simp add: bob_def)
  from subscribe_twice_restores [OF ne c1 c2 found dist subscribe_blog_off subscribe_blog_on]
  obtain t2 where "findById u_id (users (blog\<lparr>notifications := [anns_like, bobs_remark,
              \<lparr>n_recipient = 2, n_sender = 1, n_post = None, n_type = TSubscribe,
               n_read = False, n_createdAt = 11\<rparr>]\<rparr>)) 2 = Some t2"
    and "length (u_subscribers t2) = length (u_subscribers bob)" by blast
  then have "map_option (\<lambda>u. length (u_subscribers u))
        (findById u_id (users (blog\<lparr>notifications := [anns_like, bobs_remark,
              \<lparr>n_recipient = 2, n_sender = 1, n_post = None, n_type = TSubscribe,
               n_read = False, n_createdAt = 11\<rparr>]\<rparr>)) 2) = Some 1"
    by (simp add: bob_def)
  with ne found dist show ?thesis
    unfolding subscribe_blog_off snd_conv fst_conv subscribe_blog_on by simp
qed

section \<open>Creating a post\<close>

text \<open>
  What the route does in every state. When it answers with the new post, the post is
  stored, and the notifications added are: none if the lookup of the author or the
  \<^verbatim>\<open>insertMany\<close> rejected; otherwise one \<open>post_created\<close> notification for each entry
  of the author's stored subscriber list, in the list's order, referencing the new post
  and sent by the author. The list is not filtered. Whatever the calls of the fan-out do,
  the response and the stored post are the same.
\<close>

lemma createPost_fanout:
  assumes author: "findById u_id (users s) (u_id me) = Some author"
    and ok: "createPost fails me title content file new_id now s = (Success code p, s')"
  shows "posts s' = posts s @ [p] \<and> p_id p = new_id \<and> p_author p = u_id me
     \<and> (\<exists>added. notifications s' = notifications s @ added
          \<and> (fails User_findById \<or> fails Notification_insertMany \<longrightarrow> added = [])
          \<and> (\<not> fails User_findById \<and> \<not> fails Notification_insertMany \<longrightarrow>
               added = map (\<lambda>r. \<lparr>n_recipient = r, n_sender = u_id me, n_post = Some (p_id p),
                                  n_type = TPostCreated, n_read = False, n_createdAt = now\<rparr>)
                         (u_subscribers author)))
     \<and> (\<forall>fails'. fails' Cloudinary_upload = fails Cloudinary_upload
                  \<and> fails' Post_save = fails Post_save \<longrightarrow>
            fst (createPost fails' me title content file new_id now s) = Success code p
            \<and> posts (snd (createPost fails' me title content file new_id now s)) = posts s @ [p])"
proof -
  define post where "post = \<lparr>p_id = new_id, p_title = title, p_content = set_content content,
                    p_author = u_id me, p_firstName = u_firstName me,
                    p_lastName = u_lastName me, p_profilePicture = u_profilePicture me,
                    p_likes = [], p_image = (case file of None \<Rightarrow> [] | Some secure_url \<Rightarrow> secure_url)\<rparr>"
  note unf = createPost_unfold [OF post_def]
  define s1 where "s1 = s\<lparr>posts := posts s @ [post]\<rparr>"
  have a: "\<not> (file \<noteq> None \<and> fails Cloudinary_upload)"
  proof
    assume "file \<noteq> None \<and> fails Cloudinary_upload"
    with ok show False unfolding unf [of fails] by (auto split: if_splits)
  qed
  have b: "\<not> (fails Post_save \<or> \<not> post_valid post \<or> new_id \<in> set (map p_id (posts s)))"
  proof
    assume "fails Post_save \<or> \<not> post_valid post \<or> new_id \<in> set (map p_id (posts s))"
    with ok a show False unfolding unf [of fails] by (auto split: if_splits)
  qed
  from ok a b have p: "p = post" and code: "code = 201"
    and s': "s' = notify_subscribers fails (u_id me) new_id now s1"
    unfolding unf [of fails] s1_def by (auto split: if_splits)
  have found1: "findById u_id (users s1) (u_id me) = Some author"
    using author by (simp add: s1_def)
  note ns = notify_subscribers_unfold [OF found1, of fails new_id now]
  let ?mk = "\<lambda>r. \<lparr>n_recipient = r, n_sender = u_id me, n_post = Some new_id,
                    n_type = TPostCreated, n_read = False, n_createdAt = now\<rparr>"
  define added where "added =
     (if fails User_findById \<or> (u_subscribers author \<noteq> [] \<and> fails Notification_insertMany)
      then [] else map ?mk (u_subscribers author))"
  have posts': "posts s' = posts s @ [p]"
    by (simp add: s' notify_subscribers_posts s1_def p)
  have pid: "p_id p = new_id" and pa: "p_author p = u_id me" by (simp_all add: p post_def)
  have n': "notifications s' = notifications s @ added"
    unfolding s' ns added_def by (simp add: s1_def)
  have e1: "fails User_findById \<or> fails Notification_insertMany \<longrightarrow> added = []"
    by (auto simp: added_def)
  have e2: "\<not> fails User_findById \<and> \<not> fails Notification_insertMany \<longrightarrow>
               added = map (\<lambda>r. \<lparr>n_recipient = r, n_sender = u_id me, n_post = Some (p_id p),
                                  n_type = TPostCreated, n_read = False, n_createdAt = now\<rparr>)
                         (u_subscribers author)"
    by (simp add: added_def pid)
  have e3: "\<forall>fails'. fails' Cloudinary_upload = fails Cloudinary_upload
                  \<and> fails' Post_save = fails Post_save \<longrightarrow>
            fst (createPost fails' me title content file new_id now s) = Success code p
            \<and> posts (snd (createPost fails' me title content file new_id now s)) = posts s @ [p]"
  proof (intro allI impI)
    fix fails' :: faults
    assume same: "fails' Cloudinary_upload = fails Cloudinary_upload
                  \<and> fails' Post_save = fails Post_save"
    with a b have "createPost fails' me title content file new_id now s =
        (Success 201 post, notify_subscribers fails' (u_id me) new_id now s1)"
      unfolding unf [of fails'] s1_def by auto
    then show "fst (createPost fails' me title content file new_id now s) = Success code p
            \<and> posts (snd (createPost fails' me title content file new_id now s)) = posts s @ [p]"
      by (simp add: code p notify_subscribers_posts s1_def)
  qed
  from n' e1 e2 have ex: "\<exists>added. notifications s' = notifications s @ added
          \<and> (fails User_findById \<or> fails Notification_insertMany \<longrightarrow> added = [])
          \<and> (\<not> fails User_findById \<and> \<not> fails Notification_insertMany \<longrightarrow>
               added = map (\<lambda>r. \<lparr>n_recipient = r, n_sender = u_id me, n_post = Some (p_id p),
                                  n_type = TPostCreated, n_read = False, n_createdAt = now\<rparr>)
                         (u_subscribers author))"
    by (intro exI [of _ added] conjI)
  from posts' pid pa ex e3 show ?thesis by (intro conjI)
qed

text \<open>
  C7, at a concrete request: Ann is in her own subscriber list (the subscribe route put
  her there when she named herself in another spelling than the canonical one, as shown
  for C6). Ann, loaded by the middleware, creates a post and no store call rejects. The
  route answers 201 and stores, besides the post, one \<open>post_created\<close> notification: it
  is sent by Ann and addressed to Ann.
\<close>

theorem createPost_notifies_author:
  "subscribe no_faults ann (Variant 1) 10 blog = (Success 200 (True, 1), blog_self)
   \<and> authMiddleware False (Some 1) blog_self = Some ann_self
   \<and> u_subscribers ann_self = [u_id ann_self]
   \<and> fst (createPost no_faults ann_self ''news'' (js ''hi'') None 9 20 blog_self) =
        Success 201 \<lparr>p_id = 9, p_title = ''news'', p_content = js ''hi'', p_author = 1,
                     p_firstName = ''Ann'', p_lastName = ''Lee'', p_profilePicture = [],
                     p_likes = [], p_image = []\<rparr>
   \<and> notifications (snd (createPost no_faults ann_self ''news'' (js ''hi'') None 9 20 blog_self)) =
        notifications blog_self @
          [\<lparr>n_recipient = u_id ann_self, n_sender = u_id ann_self, n_post = Some 9,
            n_type = TPostCreated, n_read = False, n_createdAt = 20\<rparr>]"
  unfolding subscribe_def authMiddleware_def createPost_def notify_subscribers_def Let_def
  by (simp add: no_faults_def blog_defs blog_self_def ann_self_def findById_def save_doc_def
      user_valid_def post_valid_def toString_def set_content_def line_terminator_def js_def)

text \<open>
  Read off the stored notifications: after the two requests exactly one notification of
  kind \<open>post_created\<close> is stored, and its recipient is the author of the post.
\<close>

theorem createPost_notifies_author_witness:
  "map n_recipient (filter (\<lambda>n. n_type n = TPostCreated)
      (notifications (snd (createPost no_faults ann_self ''news'' (js ''hi'') None 9 20 blog_self))))
     = [u_id ann_self]"
  using createPost_notifies_author by (simp add: blog_self_def blog_defs ann_self_def)

section \<open>Liking a post\<close>

text \<open>
  C8. For a stored post: a like request by the post's author never changes the stored
  notifications, whatever the store does. For another user who has not liked the post,
  a successful request adds the user to the post's likes and adds exactly one
  notification of kind \<open>like\<close>, addressed to the author, sent by the user and
  referencing the post; a second successful request takes the user out of the likes
  again and leaves the notifications as the first request left them.
\<close>

theorem like_toggle_notifications:
  assumes found: "findById p_id (posts s) P = Some p"
  shows "(p_author p = u_id me \<longrightarrow>
            notifications (snd (like fails me P now s)) = notifications s)
     \<and> (p_author p \<noteq> u_id me \<and> u_id me \<notin> set (p_likes p) \<longrightarrow>
          (\<forall>c1 o1 s1 f2 now2 c2 o2 s2.
              like fails me P now s = (Success c1 o1, s1)
              \<and> like f2 me P now2 s1 = (Success c2 o2, s2) \<longrightarrow>
              (\<exists>p1. findById p_id (posts s1) P = Some p1 \<and> p_likes p1 = p_likes p @ [u_id me])
              \<and> notifications s1 = notifications s @
                   [\<lparr>n_recipient = p_author p, n_sender = u_id me, n_post = Some P,
                     n_type = TLike, n_read = False, n_createdAt = now\<rparr>]
              \<and> (\<exists>p2. findById p_id (posts s2) P = Some p2 \<and> p_likes p2 = p_likes p
                        \<and> u_id me \<notin> set (p_likes p2))
              \<and> notifications s2 = notifications s1))"
proof (intro conjI impI allI)
  assume "p_author p = u_id me"
  then show "notifications (snd (like fails me P now s)) = notifications s"
    by (rule like_own_post [OF found])
next
  fix c1 o1 s1 f2 now2 c2 o2 s2
  assume other: "p_author p \<noteq> u_id me \<and> u_id me \<notin> set (p_likes p)"
    and runs: "like fails me P now s = (Success c1 o1, s1)
               \<and> like f2 me P now2 s1 = (Success c2 o2, s2)"
  from runs have r1: "like fails me P now s = (Success c1 o1, s1)"
    and r2: "like f2 me P now2 s1 = (Success c2 o2, s2)" by simp_all
  define l1 where "l1 = (if u_id me \<in> set (p_likes p)
                          then filter (\<lambda>i. i \<noteq> u_id me) (p_likes p)
                          else p_likes p @ [u_id me])"
  note first = like_success [OF found r1 l1_def]
  have l1: "l1 = p_likes p @ [u_id me]" using other by (simp add: l1_def)
  define l2 where "l2 = (if u_id me \<in> set (p_likes (p\<lparr>p_likes := l1\<rparr>))
                          then filter (\<lambda>i. i \<noteq> u_id me) (p_likes (p\<lparr>p_likes := l1\<rparr>))
                          else p_likes (p\<lparr>p_likes := l1\<rparr>) @ [u_id me])"
  note second = like_success [OF first(1) r2 l2_def]
  have l2: "l2 = p_likes p" using other by (simp add: l2_def l1 filter_absent)
  show "\<exists>p1. findById p_id (posts s1) P = Some p1 \<and> p_likes p1 = p_likes p @ [u_id me]"
    using first(1) l1 by simp
  show "notifications s1 = notifications s @
                   [\<lparr>n_recipient = p_author p, n_sender = u_id me, n_post = Some P,
                     n_type = TLike, n_read = False, n_createdAt = now\<rparr>]"
    using first(2) other by simp
  show "\<exists>p2. findById p_id (posts s2) P = Some p2 \<and> p_likes p2 = p_likes p
                        \<and> u_id me \<notin> set (p_likes p2)"
    using second(1) l2 other by simp
  show "notifications s2 = notifications s1"
    using second(2) l1 by simp
qed

theorem like_toggle_notifications_witness:
  "findById p_id (posts blog) 5 = Some anns_post
   \<and> p_author anns_post \<noteq> u_id bob \<and> u_id bob \<notin> set (p_likes anns_post)
   \<and> fst (like no_faults bob 5 30 blog) = Success 200 ([2], True)
   \<and> fst (like no_faults bob 5 31 (snd (like no_faults bob 5 30 blog))) = Success 200 ([], False)
   \<and> notifications (snd (like no_faults bob 5 31 (snd (like no_faults bob 5 30 blog)))) =
       notifications (snd (like no_faults bob 5 30 blog))
   \<and> notifications (snd (like no_faults bob 5 30 blog)) =
       notifications blog @
         [\<lparr>n_recipient = 1, n_sender = 2, n_post = Some 5, n_type = TLike, n_read = False,
           n_createdAt = 30\<rparr>]"
proof -
  have found: "findById p_id (posts blog) 5 = Some anns_post"
    by (simp add: findById_def blog_defs)
  have other: "p_author anns_post \<noteq> u_id bob \<and> u_id bob \<notin> set (p_likes anns_post)"
    by (simp add: anns_post_def bob_def)
  from like_toggle_notifications [OF found, of bob no_faults 30, THEN conjunct2, THEN mp, OF other]
  have "\<forall>c1 o1 s1 f2 now2 c2 o2 s2.
              like no_faults bob 5 30 blog = (Success c1 o1, s1)
              \<and> like f2 bob 5 now2 s1 = (Success c2 o2, s2) \<longrightarrow>
              (\<exists>p1. findById p_id (posts s1) 5 = Some p1
                     \<and> p_likes p1 = p_likes anns_post @ [u_id bob])
              \<and> notifications s1 = notifications blog @
                   [\<lparr>n_recipient = p_author anns_post, n_sender = u_id bob, n_post = Some 5,
                     n_type = TLike, n_read = False, n_createdAt = 30\<rparr>]
              \<and> (\<exists>p2. findById p_id (posts s2) 5 = Some p2 \<and> p_likes p2 = p_likes anns_post
                        \<and> u_id bob \<notin> set (p_likes p2))
              \<and> notifications s2 = notifications s1" .
  from this [rule_format, OF conjI, OF like_blog_on like_blog_off]
  have "notifications (snd (like no_faults bob 5 31 (snd (like no_faults bob 5 30 blog)))) =
          notifications (snd (like no_faults bob 5 30 blog))
      \<and> notifications (snd (like no_faults bob 5 30 blog)) =
          notifications blog @
            [\<lparr>n_recipient = 1, n_sender = 2, n_post = Some 5, n_type = TLike, n_read = False,
              n_createdAt = 30\<rparr>]"
    unfolding like_blog_on snd_conv like_blog_off by (simp add: anns_post_def bob_def)
  moreover have "fst (like no_faults bob 5 30 blog) = Success 200 ([2], True)"
    unfolding like_blog_on by simp
  moreover have "fst (like no_faults bob 5 31 (snd (like no_faults bob 5 30 blog)))
      = Success 200 ([], False)"
    unfolding like_blog_on snd_conv like_blog_off by simp
  ultimately show ?thesis using found other by simp
qed

section \<open>Listing notifications\<close>

text \<open>
  C10. When the listing answers, it returns at most ten notifications, ten or all of the
  recipient's if there are fewer, each addressed to the recipient, ordered by creation
  time with the newest first; every notification of the recipient that is not returned
  is no newer than each returned one. The unread count is the number of all stored
  unread notifications of the recipient, returned or not.
\<close>

theorem getNotifications_page:
  assumes ok: "getNotifications fails me s = Success code (ns, unread)"
  shows "length ns \<le> 10
     \<and> length ns = min 10 (length (filter (\<lambda>n. n_recipient n = u_id me) (notifications s)))
     \<and> sorted_wrt (\<lambda>a b. v_createdAt b \<le> v_createdAt a) ns
     \<and> (\<forall>v\<in>set ns. v_recipient v = u_id me)
     \<and> (\<forall>n\<in>set (notifications s). n_recipient n = u_id me \<longrightarrow>
            populate s n \<in> set ns \<or> (\<forall>v\<in>set ns. n_createdAt n \<le> v_createdAt v))
     \<and> unread = length (filter (\<lambda>n. n_recipient n = u_id me \<and> \<not> n_read n) (notifications s))"
proof -
  define mine where "mine = filter (\<lambda>n. n_recipient n = u_id me) (notifications s)"
  define xs where "xs = sort_createdAt_desc mine"
  from ok have ns: "ns = map (populate s) (take 10 xs)"
    and unread: "unread = length (filter (\<lambda>n. n_recipient n = u_id me \<and> \<not> n_read n) (notifications s))"
    unfolding getNotifications_def Let_def xs_def mine_def by (auto split: if_splits)
  have len: "length ns = min 10 (length mine)"
    by (simp add: ns xs_def length_sorted_desc min.commute)
  have sx: "sorted_wrt (\<lambda>a b. n_createdAt b \<le> n_createdAt a) xs"
    unfolding xs_def by (rule sorted_desc)
  have split: "xs = take 10 xs @ drop 10 xs" by simp
  from sx have st: "sorted_wrt (\<lambda>a b. n_createdAt b \<le> n_createdAt a) (take 10 xs)"
    and cross: "\<forall>a\<in>set (take 10 xs). \<forall>b\<in>set (drop 10 xs). n_createdAt b \<le> n_createdAt a"
    using sorted_wrt_append [of "\<lambda>a b. n_createdAt b \<le> n_createdAt a" "take 10 xs" "drop 10 xs"]
    by simp_all
  have sorted: "sorted_wrt (\<lambda>a b. v_createdAt b \<le> v_createdAt a) ns"
    unfolding ns using st by (simp add: sorted_wrt_map)
  have setx: "set xs = set mine" by (simp add: xs_def set_sorted_desc)
  have rec: "\<forall>v\<in>set ns. v_recipient v = u_id me"
  proof
    fix v assume "v \<in> set ns"
    then obtain n where n: "n \<in> set (take 10 xs)" and v: "v = populate s n"
      unfolding ns by auto
    from n have "n \<in> set xs" by (rule in_set_takeD)
    with setx have "n_recipient n = u_id me" by (simp add: mine_def)
    with v show "v_recipient v = u_id me" by simp
  qed
  have top: "\<forall>n\<in>set (notifications s). n_recipient n = u_id me \<longrightarrow>
            populate s n \<in> set ns \<or> (\<forall>v\<in>set ns. n_createdAt n \<le> v_createdAt v)"
  proof (intro ballI impI)
    fix n assume "n \<in> set (notifications s)" and "n_recipient n = u_id me"
    then have "n \<in> set xs" by (simp add: setx mine_def)
    then have "n \<in> set (take 10 xs) \<or> n \<in> set (drop 10 xs)"
      using split by (metis Un_iff set_append)
    then show "populate s n \<in> set ns \<or> (\<forall>v\<in>set ns. n_createdAt n \<le> v_createdAt v)"
    proof
      assume "n \<in> set (take 10 xs)"
      then show ?thesis by (simp add: ns)
    next
      assume d: "n \<in> set (drop 10 xs)"
      have "\<forall>v\<in>set ns. n_createdAt n \<le> v_createdAt v"
      proof
        fix v assume "v \<in> set ns"
        then obtain a where a: "a \<in> set (take 10 xs)" and v: "v = populate s a"
          unfolding ns by auto
        from cross a d have "n_createdAt n \<le> n_createdAt a" by blast
        with v show "n_createdAt n \<le> v_createdAt v" by simp
      qed
      then show ?thesis ..
    qed
  qed
  from len have "length ns \<le> 10" by simp
  with len sorted rec top unread show ?thesis unfolding mine_def by (intro conjI)
qed

theorem getNotifications_page_witness:
  "getNotifications no_faults ann busy_blog =
     Success 200 (map (populate busy_blog) (map ping [12, 11, 10, 9, 8, 7, 6, 5, 4, 3]), 12)
   \<and> length (map (populate busy_blog) (map ping [12, 11, 10, 9, 8, 7, 6, 5, 4, 3])) \<le> 10
   \<and> (12::nat) = length (filter (\<lambda>n. n_recipient n = u_id ann \<and> \<not> n_read n)
                           (notifications busy_blog))"
  using getNotifications_page [OF getNotifications_busy] getNotifications_busy by simp

section \<open>Stored post content\<close>

text \<open>
  C9 as stated fails: Cyd creates a post whose raw content is \<^verbatim>\<open>**a\<close>, a line feed,
  \<^verbatim>\<open>b**\<close>. The content is a span wrapped in double asterisks, and the specification's
  passes turn it into the strong wrapper around the two lines. The stored content has
  no strong wrapper: the bold pattern does not match across the line feed, and the
  italic pattern then turns each pair of asterisks into an empty emphasis wrapper. The
  stored content is not an outcome of the specification's passes.
\<close>

theorem content_line_break_not_wrapped:
  "fst (createPost no_faults cyd ''news'' two_line_bold None 9 20 blog) =
     Success 201 (cyds_post\<lparr>p_content := js ''<em></em>a'' @ [0x0A] @ js ''b<em></em>''\<rparr>)
   \<and> two_line_bold = js ''**'' @ (js ''a'' @ [0x0A] @ js ''b'') @ js ''**''
   \<and> spec_formatted two_line_bold (js ''<strong>a'' @ [0x0A] @ js ''b</strong>'')
   \<and> \<not> spec_formatted two_line_bold (js ''<em></em>a'' @ [0x0A] @ js ''b<em></em>'')"
proof -
  have stored: "fst (createPost no_faults cyd ''news'' two_line_bold None 9 20 blog) =
     Success 201 (cyds_post\<lparr>p_content := js ''<em></em>a'' @ [0x0A] @ js ''b<em></em>''\<rparr>)"
    unfolding createPost_two_line_bold by simp
  have shape: "two_line_bold = js ''**'' @ (js ''a'' @ [0x0A] @ js ''b'') @ js ''**''"
    by (simp add: two_line_bold_def js_def)
  have differ: "js ''<em></em>a'' @ [0x0A] @ js ''b<em></em>''
                  \<noteq> js ''<strong>a'' @ [0x0A] @ js ''b</strong>''"
    by (simp add: js_def)
  have "\<not> spec_formatted two_line_bold (js ''<em></em>a'' @ [0x0A] @ js ''b<em></em>'')"
  proof
    assume "spec_formatted two_line_bold (js ''<em></em>a'' @ [0x0A] @ js ''b<em></em>'')"
    with spec_formatted_two_line_bold differ show False
      unfolding spec_formatted_def using three_passes_unique by blast
  qed
  with stored shape spec_formatted_two_line_bold show ?thesis by simp
qed

text \<open>
  C9 as the code has it. When a post is created, the stored content is the one outcome
  of the three passes over the raw content of the request, where a wrapped span is
  replaced when its body holds no line terminator (line feed, carriage return, U+2028,
  U+2029): one left-to-right pass replacing such spans wrapped in \<^verbatim>\<open>**\<close> by the strong
  wrapper, then one replacing such spans wrapped in \<^verbatim>\<open>*\<close> by the emphasis wrapper,
  then one replacing such spans wrapped in \<^verbatim>\<open>__\<close> by the underline wrapper. The
  setter runs once, on the raw input, when the document is built; the stored value is
  what these three passes give on the raw input.
\<close>

theorem content_stored_single_pass:
  assumes ok: "createPost fails me title content file new_id now s = (Success code p, s')"
  shows "(\<forall>out. formatted_within_lines content out \<longleftrightarrow> out = p_content p)
       \<and> p \<in> set (posts s')"
  using createPost_success [OF ok] by (simp add: formatted_within_lines_set_content)

theorem content_stored_single_pass_witness:
  "fst (createPost no_faults cyd ''news'' (js ''**hi**'') None 9 20 blog) = Success 201 cyds_post
   \<and> formatted_within_lines (js ''**hi**'') (js ''<strong>hi</strong>'')
   \<and> cyds_post \<in> set (posts (snd (createPost no_faults cyd ''news'' (js ''**hi**'') None 9 20 blog)))"
proof -
  from content_stored_single_pass [OF createPost_blog]
  have "formatted_within_lines (js ''**hi**'') (p_content cyds_post)"
    and "cyds_post \<in> set (posts (snd (createPost no_faults cyd ''news'' (js ''**hi**'') None 9 20 blog)))"
    unfolding createPost_blog by simp_all
  then show ?thesis unfolding createPost_blog by (simp add: cyds_post_def)
qed

end
